theory Spec2Isabelle
  imports Main
begin

section \<open>Values of the host language\<close>

text \<open>
  The embedding follows \<^verbatim>\<open>src/detector.js\<close>. JavaScript strings are modelled as
  \<^typ>\<open>string\<close> (code units below 256), numbers as integers (path segments are array
  indices, the depth limit is a count), objects and functions as references into a host
  heap; a regular expression is an object too. A symbol is either registered globally (\<^verbatim>\<open>Symbol.for(key)\<close>), one of the
  well-known symbols (\<^verbatim>\<open>Symbol.iterator\<close>, named by the part after the dot), or a
  local symbol with an identity and an optional description.
\<close>

type_synonym ref = nat

datatype symbol =
    SymFor string
  | SymWellKnown string
  | SymLocal nat "string option"

datatype jsval =
    JUndefined
  | JNull
  | JBool bool
  | JNum int
  | JStr string
  | JSym symbol
  | JObj ref

text \<open>A property key, as a Proxy trap receives it: a string or a symbol.\<close>

datatype pkey = KStr string | KSym symbol

text \<open>A path segment: a property name, a numeric index or a symbolic key.\<close>

datatype segment = SStr string | SNum int | SSym symbol

fun segment_of :: "pkey \<Rightarrow> segment" where
  "segment_of (KStr s) = SStr s"
| "segment_of (KSym y) = SSym y"

section \<open>Path model: \<^verbatim>\<open>pathToAccessor\<close>\<close>

text \<open>\<^verbatim>\<open>Symbol.keyFor\<close>, \<^verbatim>\<open>description\<close> and \<^verbatim>\<open>toString\<close> of a symbol.\<close>

fun keyFor :: "symbol \<Rightarrow> string option" where
  "keyFor (SymFor k) = Some k"
| "keyFor (SymWellKnown n) = None"
| "keyFor (SymLocal i d) = None"

fun description :: "symbol \<Rightarrow> string option" where
  "description (SymFor k) = Some k"
| "description (SymWellKnown n) = Some (''Symbol.'' @ n)"
| "description (SymLocal i d) = d"

definition symbol_toString :: "symbol \<Rightarrow> string" where
  "symbol_toString y =
     ''Symbol('' @ (case description y of None \<Rightarrow> [] | Some d \<Rightarrow> d) @ '')''"

text \<open>Decimal rendering of an integer, as a template literal renders a number.\<close>

fun string_of_nat :: "nat \<Rightarrow> string" where
  "string_of_nat n =
     (if n < 10 then [''0123456789'' ! n]
      else string_of_nat (n div 10) @ [''0123456789'' ! (n mod 10)])"

declare string_of_nat.simps [simp del]

definition string_of_int :: "int \<Rightarrow> string" where
  "string_of_int i = (if i < 0 then CHR ''-'' # string_of_nat (nat (- i)) else string_of_nat (nat i))"

text \<open>
  \<^verbatim>\<open>JSON.stringify\<close> of a string: the quotation mark and the backslash are escaped, the
  control characters below 0x20 have their short escapes or \<^verbatim>\<open>\u00XX\<close>, every other
  code unit is kept.
\<close>

definition hex_digit :: "nat \<Rightarrow> char" where
  "hex_digit n = ''0123456789abcdef'' ! n"

definition json_escape :: "char \<Rightarrow> string" where
  "json_escape c =
     (let n = (of_char c :: nat) in
      if n = 0x08 then [CHR 0x5C, CHR ''b'']
      else if n = 0x09 then [CHR 0x5C, CHR ''t'']
      else if n = 0x0A then [CHR 0x5C, CHR ''n'']
      else if n = 0x0C then [CHR 0x5C, CHR ''f'']
      else if n = 0x0D then [CHR 0x5C, CHR ''r'']
      else if n = 0x22 then [CHR 0x5C, CHR 0x22]
      else if n = 0x5C then [CHR 0x5C, CHR 0x5C]
      else if n < 0x20 then [CHR 0x5C, CHR ''u'', CHR ''0'', CHR ''0'', hex_digit (n div 16), hex_digit (n mod 16)]
      else [c])"

definition JSON_stringify :: "string \<Rightarrow> string" where
  "JSON_stringify s = CHR 0x22 # concat (map json_escape s) @ [CHR 0x22]"

text \<open>The character classes of the two regular expressions of \<^verbatim>\<open>pathToAccessor\<close>.\<close>

definition is_digit :: "char \<Rightarrow> bool" where
  "is_digit c = (let n = (of_char c :: nat) in 48 \<le> n \<and> n \<le> 57)"

definition is_ident_start :: "char \<Rightarrow> bool" where
  "is_ident_start c =
     (let n = (of_char c :: nat) in
      (97 \<le> n \<and> n \<le> 122) \<or> (65 \<le> n \<and> n \<le> 90) \<or> c = CHR ''_'' \<or> c = CHR ''$'')"

definition is_ident_part :: "char \<Rightarrow> bool" where
  "is_ident_part c = (is_ident_start c \<or> is_digit c)"

text \<open>\<^verbatim>\<open>/^[a-zA-Z_$][a-zA-Z0-9_$]*$/.test(s)\<close>\<close>

fun isValidIdentifier :: "string \<Rightarrow> bool" where
  "isValidIdentifier [] = False"
| "isValidIdentifier (c # cs) = (is_ident_start c \<and> list_all is_ident_part cs)"

text \<open>\<^verbatim>\<open>/^\d+$/.test(s)\<close>\<close>

definition all_digits :: "string \<Rightarrow> bool" where
  "all_digits s = (s \<noteq> [] \<and> list_all is_digit s)"

text \<open>\<^verbatim>\<open>s.startsWith('[') && s.endsWith(']')\<close>\<close>

definition is_marker :: "string \<Rightarrow> bool" where
  "is_marker s = (s \<noteq> [] \<and> hd s = CHR ''['' \<and> last s = CHR '']'')"

text \<open>
  The callback of \<^verbatim>\<open>path.reduce\<close>: the accumulator, the segment and its index give the
  next accumulator. The branches are in the order of the source: symbols (a truthy
  \<^verbatim>\<open>Symbol.keyFor\<close>, else a truthy description, else \<^verbatim>\<open>toString\<close>), bracketed
  markers, numbers and digit strings, then identifiers and quoted names.
\<close>

definition symbol_label :: "symbol \<Rightarrow> string" where
  "symbol_label y =
     (case description y of
        Some d \<Rightarrow> (if d \<noteq> [] then d else symbol_toString y)
      | None \<Rightarrow> symbol_toString y)"

fun render_segment :: "string \<Rightarrow> segment \<Rightarrow> nat \<Rightarrow> string" where
  "render_segment acc (SSym y) index =
     (case keyFor y of
        Some key \<Rightarrow>
          (if key \<noteq> [] then acc @ ''[Symbol.for('' @ [CHR 0x22] @ key @ [CHR 0x22] @ '')]''
           else acc @ ''['' @ symbol_label y @ '']'')
      | None \<Rightarrow> acc @ ''['' @ symbol_label y @ '']'')"
| "render_segment acc (SNum n) index = acc @ ''['' @ string_of_int n @ '']''"
| "render_segment acc (SStr s) index =
     (if is_marker s then acc @ s
      else if all_digits s then acc @ ''['' @ s @ '']''
      else if index = 0 then
        (if isValidIdentifier s then s else ''['' @ JSON_stringify s @ '']'')
      else
        (if isValidIdentifier s then acc @ ''.'' @ s
         else acc @ ''['' @ JSON_stringify s @ '']''))"

fun reduce_path :: "string \<Rightarrow> nat \<Rightarrow> segment list \<Rightarrow> string" where
  "reduce_path acc index [] = acc"
| "reduce_path acc index (seg # segs) = reduce_path (render_segment acc seg index) (Suc index) segs"

definition pathToAccessor :: "segment list \<Rightarrow> string" where
  "pathToAccessor path = (if length path = 0 then [] else reduce_path [] 0 path)"

section \<open>Events\<close>

datatype event_type =
  GET | SET | APPLY | APPLY_RESOLVED | APPLY_REJECTED | CONSTRUCT | DELETE_PROPERTY

text \<open>
  An event object. A field that the object does not have is \<open>None\<close>; \<open>ev_prop\<close> is
  \<open>None\<close> where the source leaves \<^verbatim>\<open>prop\<close> undefined.
\<close>

record event =
  ev_type :: event_type
  ev_path :: "segment list"
  ev_accessor :: string
  ev_prop :: "pkey option"
  ev_target :: ref
  ev_timestamp :: int
  ev_args :: "jsval list option"
  ev_value :: "jsval option"
  ev_result :: "jsval option"
  ev_isPromise :: "bool option"
  ev_error :: "jsval option"

section \<open>The host: heap, reflection, regular expressions and proxies\<close>

text \<open>
  The handler object that \<^verbatim>\<open>createProxy\<close> builds is determined by the \<^verbatim>\<open>path\<close> and
  \<^verbatim>\<open>depth\<close> its five traps are bound to.
\<close>

datatype handler = Handler (handler_path: "segment list") (handler_depth: nat)

text \<open>
  What the program asks of the JavaScript engine is a parameter of the model: the heap
  \<open>'h\<close> and the operations on it. An operation that can throw returns \<open>Inl e\<close> for the
  thrown value \<open>e\<close> and \<open>Inr v\<close> for a normal result, together with the heap after it.
  \<open>new_Proxy\<close> answers \<open>None\<close> when the \<^verbatim>\<open>Proxy\<close> constructor throws. \<open>RegExp_test\<close>
  is \<^verbatim>\<open>pattern.test(text)\<close>: it answers on the heap it is called on and returns the
  heap after the call, since a regular expression with the \<^verbatim>\<open>g\<close> or \<^verbatim>\<open>y\<close> flag keeps
  its \<^verbatim>\<open>lastIndex\<close> from one call to the next. An underlying operation is a transition of
  the heap alone: what a getter or a function body does through a wrapper of the session
  is a trap call of its own.
\<close>

record 'h host =
  is_callable :: "'h \<Rightarrow> ref \<Rightarrow> bool"
  instanceof_Promise :: "'h \<Rightarrow> ref \<Rightarrow> bool"
  Reflect_get :: "ref \<Rightarrow> pkey \<Rightarrow> jsval \<Rightarrow> 'h \<Rightarrow> (jsval + jsval) \<times> 'h"
  Reflect_set :: "ref \<Rightarrow> pkey \<Rightarrow> jsval \<Rightarrow> jsval \<Rightarrow> 'h \<Rightarrow> (jsval + bool) \<times> 'h"
  Reflect_apply :: "ref \<Rightarrow> jsval \<Rightarrow> jsval list \<Rightarrow> 'h \<Rightarrow> (jsval + jsval) \<times> 'h"
  Reflect_construct :: "ref \<Rightarrow> jsval list \<Rightarrow> jsval \<Rightarrow> 'h \<Rightarrow> (jsval + jsval) \<times> 'h"
  Reflect_deleteProperty :: "ref \<Rightarrow> pkey \<Rightarrow> 'h \<Rightarrow> (jsval + bool) \<times> 'h"
  RegExp_test :: "ref \<Rightarrow> string \<Rightarrow> 'h \<Rightarrow> bool \<times> 'h"
  new_Proxy :: "ref \<Rightarrow> handler \<Rightarrow> 'h \<Rightarrow> ref option \<times> 'h"
  Date_now :: "'h \<Rightarrow> int"

datatype jstype =
  T_undefined | T_object | T_boolean | T_number | T_string | T_symbol | T_function

fun typeof :: "'h host \<Rightarrow> 'h \<Rightarrow> jsval \<Rightarrow> jstype" where
  "typeof host h JUndefined = T_undefined"
| "typeof host h JNull = T_object"
| "typeof host h (JBool b) = T_boolean"
| "typeof host h (JNum n) = T_number"
| "typeof host h (JStr s) = T_string"
| "typeof host h (JSym y) = T_symbol"
| "typeof host h (JObj r) = (if is_callable host h r then T_function else T_object)"

section \<open>Filter engine: \<^verbatim>\<open>matchPatterns\<close> and \<^verbatim>\<open>shouldWatch\<close>\<close>

text \<open>
  A pattern of an \<^verbatim>\<open>include\<close> or \<^verbatim>\<open>exclude\<close> array is a string, a regular expression
  (an object of the heap) or any other value.
\<close>

datatype pattern = PString string | PRegExp ref | POther jsval

definition startsWith :: "string \<Rightarrow> string \<Rightarrow> bool" where
  "startsWith text p = (take (length p) text = p)"

text \<open>The callback of \<^verbatim>\<open>patterns.some\<close>.\<close>

fun matchPattern :: "'h host \<Rightarrow> string \<Rightarrow> pattern \<Rightarrow> 'h \<Rightarrow> bool \<times> 'h" where
  "matchPattern host text (PString p) h =
     (if text = p then (True, h)
      else if startsWith text (p @ ''.'') then (True, h)
      else if startsWith text (p @ ''['') then (True, h)
      else (False, h))"
| "matchPattern host text (PRegExp r) h = RegExp_test host r text h"
| "matchPattern host text (POther v) h = (False, h)"

text \<open>\<^verbatim>\<open>Array.prototype.some\<close>: the patterns in order, up to the first that matches.\<close>

fun some_pattern :: "'h host \<Rightarrow> string \<Rightarrow> pattern list \<Rightarrow> 'h \<Rightarrow> bool \<times> 'h" where
  "some_pattern host text [] h = (False, h)"
| "some_pattern host text (p # ps) h =
     (case matchPattern host text p h of
        (True, h1) \<Rightarrow> (True, h1)
      | (False, h1) \<Rightarrow> some_pattern host text ps h1)"

text \<open>\<^verbatim>\<open>patterns\<close> is \<^verbatim>\<open>null\<close> (here \<open>None\<close>) when the option is not an array.\<close>

definition matchPatterns :: "'h host \<Rightarrow> string \<Rightarrow> pattern list option \<Rightarrow> 'h \<Rightarrow> bool \<times> 'h" where
  "matchPatterns host text patterns h =
     (case patterns of
        None \<Rightarrow> (False, h)
      | Some ps \<Rightarrow> if length ps = 0 then (False, h) else some_pattern host text ps h)"

definition shouldWatch ::
  "'h host \<Rightarrow> pattern list option \<Rightarrow> pattern list option \<Rightarrow> string \<Rightarrow> 'h \<Rightarrow> bool \<times> 'h" where
  "shouldWatch host incl excl accessor h =
     (case (if incl \<noteq> None then matchPatterns host accessor incl h else (True, h)) of
        (False, h1) \<Rightarrow> (False, h1)
      | (True, h1) \<Rightarrow>
          if excl \<noteq> None then
            (case matchPatterns host accessor excl h1 of
               (True, h2) \<Rightarrow> (False, h2)
             | (False, h2) \<Rightarrow> (True, h2))
          else (True, h1))"

section \<open>One instrumentation session\<close>

text \<open>
  The constants that the closures of one \<^verbatim>\<open>createDetector\<close> call share. \<open>depthLimit\<close> is
  \<open>None\<close> for \<^verbatim>\<open>Infinity\<close>. \<open>onEvent\<close> is the caller's callback: called with an event
  on a heap, it returns (\<open>None\<close>) or throws a value (\<open>Some e\<close>), and it leaves a heap: the
  callback gets the live target and can read and change whatever it reaches. What the
  callback does through a wrapper of the session is a trap call of its own.
\<close>

record 'h session =
  depthLimit :: "nat option"
  include_patterns :: "pattern list option"
  exclude_patterns :: "pattern list option"
  onEvent :: "event \<Rightarrow> 'h \<Rightarrow> jsval option \<times> 'h"

datatype settlement = Fulfilled jsval | Rejected jsval

text \<open>
  What changes while the session runs: the host heap, the \<^verbatim>\<open>WeakMap\<close>
  \<open>objToWrapper\<close> and the \<^verbatim>\<open>WeakSet\<close> \<open>processingObjects\<close>. Four more fields record
  what the session does to its surroundings: the events given to \<^verbatim>\<open>emitEvent\<close>, the
  calls made to \<open>onEvent\<close> (each with the heap the callback was called on), the values
  passed to \<^verbatim>\<open>console.warn\<close> (the console of the host, which returns), and the
  continuations attached by \<^verbatim>\<open>promise.then\<close> that have not run yet (each with the event
  base its two callbacks close over). \<open>settled\<close> is the host's record of the promises
  that have settled.
\<close>

record 'h world =
  heap :: 'h
  objToWrapper :: "ref \<rightharpoonup> ref"
  processingObjects :: "ref set"
  reactions :: "(jsval \<times> event) list"
  settled :: "jsval \<rightharpoonup> settlement"
  emitted :: "event list"
  delivered :: "(event \<times> 'h) list"
  warnings :: "jsval list"

definition isPromise :: "'h host \<Rightarrow> 'h \<Rightarrow> jsval \<Rightarrow> bool" where
  "isPromise host h v = (case v of JObj r \<Rightarrow> instanceof_Promise host h r | _ \<Rightarrow> False)"

definition BUILTIN_SYMBOLS :: "symbol list" where
  "BUILTIN_SYMBOLS =
     [SymWellKnown ''iterator'', SymWellKnown ''asyncIterator'', SymWellKnown ''toPrimitive'',
      SymWellKnown ''hasInstance'', SymWellKnown ''toStringTag'', SymWellKnown ''species'']"

definition SYNC_RESULT :: string where
  "SYNC_RESULT = ''[sync-result]''"

definition CONSTRUCTED :: string where
  "CONSTRUCTED = ''[constructed]''"

fun isBuiltinMethod :: "pkey \<Rightarrow> bool" where
  "isBuiltinMethod (KSym y) = (y \<in> set BUILTIN_SYMBOLS)"
| "isBuiltinMethod (KStr s) = startsWith s ''@@''"

text \<open>
  \<^verbatim>\<open>emitEvent\<close>: the filter first, which may move the heap; then the callback inside
  \<^verbatim>\<open>try\<close>, on the heap the filter left, whose exception goes to \<^verbatim>\<open>console.warn\<close> and
  nowhere else.
\<close>

definition emitEvent :: "'h host \<Rightarrow> 'h session \<Rightarrow> event \<Rightarrow> 'h world \<Rightarrow> 'h world" where
  "emitEvent host s eventData w =
     (case shouldWatch host (include_patterns s) (exclude_patterns s) (ev_accessor eventData) (heap w) of
        (False, h1) \<Rightarrow> w\<lparr>heap := h1, emitted := emitted w @ [eventData]\<rparr>
      | (True, h1) \<Rightarrow>
          (case onEvent s eventData h1 of
             (None, h2) \<Rightarrow>
               w\<lparr>heap := h2, emitted := emitted w @ [eventData],
                 delivered := delivered w @ [(eventData, h1)]\<rparr>
           | (Some e, h2) \<Rightarrow>
               w\<lparr>heap := h2, emitted := emitted w @ [eventData],
                 delivered := delivered w @ [(eventData, h1)],
                 warnings := warnings w @ [e]\<rparr>))"

definition createEventBase ::
  "'h host \<Rightarrow> event_type \<Rightarrow> segment list \<Rightarrow> ref \<Rightarrow> pkey option \<Rightarrow> 'h world \<Rightarrow> event" where
  "createEventBase host type path target prop w =
     \<lparr>ev_type = type, ev_path = path, ev_accessor = pathToAccessor path, ev_prop = prop,
      ev_target = target, ev_timestamp = Date_now host (heap w),
      ev_args = None, ev_value = None, ev_result = None, ev_isPromise = None, ev_error = None\<rparr>"

text \<open>
  \<^verbatim>\<open>executeOperation\<close>: the operation runs on the heap; its result or its exception is
  reported, and the exception is thrown again.
\<close>

definition executeOperation ::
  "'h host \<Rightarrow> 'h session \<Rightarrow> ('h \<Rightarrow> (jsval + jsval) \<times> 'h) \<Rightarrow> event \<Rightarrow> 'h world
     \<Rightarrow> (jsval + jsval) \<times> 'h world" where
  "executeOperation host s operation eventBase w =
     (case operation (heap w) of
        (Inr result, h') \<Rightarrow>
          (Inr result,
           emitEvent host s (eventBase\<lparr>ev_result := Some result,
                                       ev_isPromise := Some (isPromise host h' result)\<rparr>)
             (w\<lparr>heap := h'\<rparr>))
      | (Inl error, h') \<Rightarrow>
          (Inl error, emitEvent host s (eventBase\<lparr>ev_error := Some error\<rparr>) (w\<lparr>heap := h'\<rparr>)))"

text \<open>
  \<^verbatim>\<open>handlePromiseResult\<close> attaches two callbacks to the promise with one call of
  \<^verbatim>\<open>then\<close>; they are \<open>onFulfilled\<close> and \<open>onRejected\<close> below, closed over the event base.
\<close>

definition handlePromiseResult :: "jsval \<Rightarrow> event \<Rightarrow> 'h world \<Rightarrow> 'h world" where
  "handlePromiseResult promise eventBase w = w\<lparr>reactions := reactions w @ [(promise, eventBase)]\<rparr>"

definition onFulfilled :: "'h host \<Rightarrow> 'h session \<Rightarrow> event \<Rightarrow> jsval \<Rightarrow> 'h world \<Rightarrow> 'h world" where
  "onFulfilled host s eventBase result w =
     emitEvent host s (eventBase\<lparr>ev_type := APPLY_RESOLVED, ev_result := Some result,
                                 ev_isPromise := Some True\<rparr>) w"

definition onRejected :: "'h host \<Rightarrow> 'h session \<Rightarrow> event \<Rightarrow> jsval \<Rightarrow> 'h world \<Rightarrow> 'h world" where
  "onRejected host s eventBase error w =
     emitEvent host s (eventBase\<lparr>ev_type := APPLY_REJECTED, ev_error := Some error,
                                 ev_isPromise := Some True\<rparr>) w"

text \<open>
  The host's side of a promise, as the language defines \<^verbatim>\<open>then\<close>; none of it is code of
  the repository. A promise settles once: settling a settled promise changes nothing.
  When the host runs its jobs, every continuation attached to a settled promise runs
  once, in the order of attachment, the first callback if the promise is fulfilled and
  the second if it is rejected, and is then gone; a continuation of a promise that has
  not settled stays.
\<close>

definition resolve_promise :: "jsval \<Rightarrow> settlement \<Rightarrow> 'h world \<Rightarrow> 'h world" where
  "resolve_promise p out w =
     (case settled w p of None \<Rightarrow> w\<lparr>settled := (settled w)(p \<mapsto> out)\<rparr> | Some old \<Rightarrow> w)"

fun run_reaction :: "'h host \<Rightarrow> 'h session \<Rightarrow> settlement \<Rightarrow> event \<Rightarrow> 'h world \<Rightarrow> 'h world" where
  "run_reaction host s (Fulfilled v) eventBase w = onFulfilled host s eventBase v w"
| "run_reaction host s (Rejected e) eventBase w = onRejected host s eventBase e w"

fun run_reactions ::
  "'h host \<Rightarrow> 'h session \<Rightarrow> (jsval \<times> event) list \<Rightarrow> 'h world \<Rightarrow> 'h world" where
  "run_reactions host s [] w = w"
| "run_reactions host s ((q, eventBase) # rs) w =
     (case settled w q of
        None \<Rightarrow> run_reactions host s rs w
      | Some out \<Rightarrow> run_reactions host s rs (run_reaction host s out eventBase w))"

definition run_jobs :: "'h host \<Rightarrow> 'h session \<Rightarrow> 'h world \<Rightarrow> 'h world" where
  "run_jobs host s w =
     run_reactions host s (reactions w)
       (w\<lparr>reactions := filter (\<lambda>(q, eventBase). settled w q = None) (reactions w)\<rparr>)"

definition settle :: "'h host \<Rightarrow> 'h session \<Rightarrow> jsval \<Rightarrow> settlement \<Rightarrow> 'h world \<Rightarrow> 'h world" where
  "settle host s p out w = run_jobs host s (resolve_promise p out w)"

section \<open>The wrap registry: \<^verbatim>\<open>createProxy\<close>\<close>

definition exceeds :: "nat \<Rightarrow> nat option \<Rightarrow> bool" where
  "exceeds depth limit = (case limit of None \<Rightarrow> False | Some l \<Rightarrow> depth > l)"

definition createProxy ::
  "'h host \<Rightarrow> 'h session \<Rightarrow> jsval \<Rightarrow> segment list \<Rightarrow> nat \<Rightarrow> 'h world \<Rightarrow> jsval \<times> 'h world" where
  "createProxy host s obj path depth w =
     (if obj = JNull \<or> (typeof host (heap w) obj \<noteq> T_object \<and> typeof host (heap w) obj \<noteq> T_function)
      then (obj, w)
      else if exceeds depth (depthLimit s) then (obj, w)
      else if isPromise host (heap w) obj then (obj, w)
      else
        (case obj of
           JObj r \<Rightarrow>
             (case objToWrapper w r of
                Some cached \<Rightarrow> (JObj cached, w)
              | None \<Rightarrow>
                  if r \<in> processingObjects w then (obj, w)
                  else
                    (let w1 = w\<lparr>processingObjects := insert r (processingObjects w)\<rparr> in
                     case new_Proxy host r (Handler path depth) (heap w1) of
                       (Some wrapper, h') \<Rightarrow>
                         (JObj wrapper,
                          w1\<lparr>heap := h',
                             objToWrapper := (objToWrapper w1)(r \<mapsto> wrapper),
                             processingObjects := processingObjects w1 - {r}\<rparr>)
                     | (None, h') \<Rightarrow>
                         (obj, w1\<lparr>heap := h', processingObjects := processingObjects w1 - {r}\<rparr>)))
         | _ \<Rightarrow> (obj, w)))"

section \<open>The interception layer: the five traps\<close>

definition createGetHandler ::
  "'h host \<Rightarrow> 'h session \<Rightarrow> segment list \<Rightarrow> nat \<Rightarrow> ref \<Rightarrow> pkey \<Rightarrow> jsval \<Rightarrow> 'h world
     \<Rightarrow> (jsval + jsval) \<times> 'h world" where
  "createGetHandler host s path depth target prop receiver w =
     (let eventBase = createEventBase host GET (path @ [segment_of prop]) target (Some prop) w in
      if isBuiltinMethod prop then
        (case Reflect_get host target prop receiver (heap w) of
           (Inl e, h') \<Rightarrow> (Inl e, w\<lparr>heap := h'\<rparr>)
         | (Inr v, h') \<Rightarrow>
             (Inr v, emitEvent host s (eventBase\<lparr>ev_result := Some v, ev_isPromise := Some False\<rparr>)
                       (w\<lparr>heap := h'\<rparr>)))
      else
        (case executeOperation host s (Reflect_get host target prop receiver) eventBase w of
           (Inl e, w1) \<Rightarrow> (Inl e, w1)
         | (Inr v, w1) \<Rightarrow>
             if isPromise host (heap w1) v then (Inr v, w1)
             else
               (case createProxy host s v (path @ [segment_of prop]) (depth + 1) w1 of
                  (r, w2) \<Rightarrow> (Inr r, w2))))"

definition createSetHandler ::
  "'h host \<Rightarrow> 'h session \<Rightarrow> segment list \<Rightarrow> ref \<Rightarrow> pkey \<Rightarrow> jsval \<Rightarrow> jsval \<Rightarrow> 'h world
     \<Rightarrow> (jsval + bool) \<times> 'h world" where
  "createSetHandler host s path target prop v receiver w =
     (let w1 = emitEvent host s
                 ((createEventBase host SET (path @ [segment_of prop]) target (Some prop) w)
                    \<lparr>ev_value := Some v\<rparr>) w
      in case Reflect_set host target prop v receiver (heap w1) of
           (res, h') \<Rightarrow> (res, w1\<lparr>heap := h'\<rparr>))"

definition createApplyHandler ::
  "'h host \<Rightarrow> 'h session \<Rightarrow> segment list \<Rightarrow> nat \<Rightarrow> ref \<Rightarrow> jsval \<Rightarrow> jsval list \<Rightarrow> 'h world
     \<Rightarrow> (jsval + jsval) \<times> 'h world" where
  "createApplyHandler host s path depth target thisArg argsList w =
     (let eventBase = (createEventBase host APPLY path target None w)\<lparr>ev_args := Some argsList\<rparr> in
      case executeOperation host s (Reflect_apply host target thisArg argsList) eventBase w of
        (Inl e, w1) \<Rightarrow> (Inl e, w1)
      | (Inr result, w1) \<Rightarrow>
          if isPromise host (heap w1) result
          then (Inr result, handlePromiseResult result eventBase w1)
          else
            (case createProxy host s result (path @ [SStr SYNC_RESULT]) (depth + 1) w1 of
               (r, w2) \<Rightarrow> (Inr r, w2)))"

definition createConstructHandler ::
  "'h host \<Rightarrow> 'h session \<Rightarrow> segment list \<Rightarrow> nat \<Rightarrow> ref \<Rightarrow> jsval list \<Rightarrow> jsval \<Rightarrow> 'h world
     \<Rightarrow> (jsval + jsval) \<times> 'h world" where
  "createConstructHandler host s path depth target argsList newTarget w =
     (let eventBase = (createEventBase host CONSTRUCT path target None w)\<lparr>ev_args := Some argsList\<rparr> in
      case executeOperation host s (Reflect_construct host target argsList newTarget) eventBase w of
        (Inl e, w1) \<Rightarrow> (Inl e, w1)
      | (Inr instance, w1) \<Rightarrow>
          (case createProxy host s instance (path @ [SStr CONSTRUCTED]) (depth + 1) w1 of
             (r, w2) \<Rightarrow> (Inr r, w2)))"

definition createDeleteHandler ::
  "'h host \<Rightarrow> 'h session \<Rightarrow> segment list \<Rightarrow> ref \<Rightarrow> pkey \<Rightarrow> 'h world
     \<Rightarrow> (jsval + bool) \<times> 'h world" where
  "createDeleteHandler host s path target prop w =
     (let w1 = emitEvent host s
                 (createEventBase host DELETE_PROPERTY (path @ [segment_of prop]) target (Some prop) w) w
      in case Reflect_deleteProperty host target prop (heap w1) of
           (res, h') \<Rightarrow> (res, w1\<lparr>heap := h'\<rparr>))"

section \<open>The entry point: \<^verbatim>\<open>createDetector\<close>\<close>

text \<open>
  The second argument is a function, given by what it does when called, or a value of
  another type. A field of the options object holds a plain value or an array of
  patterns; the object maps field names to them.
\<close>

datatype 'h callback = Callback "event \<Rightarrow> 'h \<Rightarrow> jsval option \<times> 'h" | NotAFunction jsval

datatype opt_value = OptVal jsval | OptArray "pattern list"

type_synonym options = "string \<rightharpoonup> opt_value"

datatype error = TypeError string

definition depthLimit_of :: "options \<Rightarrow> nat option" where
  "depthLimit_of opts =
     (case opts ''depthLimit'' of
        Some (OptVal (JNum n)) \<Rightarrow> Some (nat (max 0 n))
      | _ \<Rightarrow> None)"

definition patterns_of :: "options \<Rightarrow> string \<Rightarrow> pattern list option" where
  "patterns_of opts name = (case opts name of Some (OptArray ps) \<Rightarrow> Some ps | _ \<Rightarrow> None)"

definition session_of :: "(event \<Rightarrow> 'h \<Rightarrow> jsval option \<times> 'h) \<Rightarrow> options \<Rightarrow> 'h session" where
  "session_of f opts =
     \<lparr>depthLimit = depthLimit_of opts,
      include_patterns = patterns_of opts ''include'',
      exclude_patterns = patterns_of opts ''exclude'',
      onEvent = f\<rparr>"

text \<open>\<^verbatim>\<open>opts.enable === false\<close>\<close>

definition enable_is_false :: "options \<Rightarrow> bool" where
  "enable_is_false opts = (case opts ''enable'' of Some (OptVal (JBool b)) \<Rightarrow> \<not> b | _ \<Rightarrow> False)"

text \<open>The state of a session that has done nothing yet, on a given heap.\<close>

definition new_world :: "'h \<Rightarrow> 'h world" where
  "new_world h =
     \<lparr>heap = h, objToWrapper = Map.empty, processingObjects = {}, reactions = [],
      settled = Map.empty, emitted = [], delivered = [], warnings = []\<rparr>"

definition createDetector ::
  "'h host \<Rightarrow> jsval \<Rightarrow> 'h callback \<Rightarrow> options \<Rightarrow> 'h \<Rightarrow> error + jsval \<times> 'h world" where
  "createDetector host target cb opts h =
     (case cb of
        NotAFunction v \<Rightarrow> Inl (TypeError ''onEvent must be a function'')
      | Callback f \<Rightarrow>
          if enable_is_false opts then Inr (target, new_world h)
          else if target = JNull \<or>
                  (typeof host h target \<noteq> T_object \<and> typeof host h target \<noteq> T_function)
          then Inr (target, new_world h)
          else Inr (createProxy host (session_of f opts) target [] 0 (new_world h)))"

section \<open>Notions used in the statements\<close>





text \<open>The world without what was written to \<^verbatim>\<open>console.warn\<close>.\<close>

definition without_warnings :: "'h world \<Rightarrow> 'h world" where
  "without_warnings w = w\<lparr>warnings := []\<rparr>"

text \<open>
  The follow-up event of a continuation: what its first callback emits for a value, and
  its second for a reason.
\<close>

fun follow_up :: "settlement \<Rightarrow> event \<Rightarrow> event" where
  "follow_up (Fulfilled v) eventBase =
     eventBase\<lparr>ev_type := APPLY_RESOLVED, ev_result := Some v, ev_isPromise := Some True\<rparr>"
| "follow_up (Rejected e) eventBase =
     eventBase\<lparr>ev_type := APPLY_REJECTED, ev_error := Some e, ev_isPromise := Some True\<rparr>"


section \<open>A small host on which the model is evaluated\<close>

text \<open>
  A heap with data properties, a counter for fresh references, the set of the objects
  that are instances of \<^verbatim>\<open>Promise\<close>, the set of frozen objects, and the \<^verbatim>\<open>lastIndex\<close> of
  the regular expressions. Object 1 is \<^verbatim>\<open>{name: 'Alice', address: <2>}\<close>, object 2 is
  \<^verbatim>\<open>{city: 'Wonderland'}\<close>; 10, 11 and 12 are functions: 10 returns the promise 20, 11
  returns the object 21, which has a \<^verbatim>\<open>then\<close> method and is not a promise, and 12 throws
  \<^verbatim>\<open>'boom'\<close>. Reading a property named \<^verbatim>\<open>boom\<close> or \<^verbatim>\<open>@@boom\<close> throws \<^verbatim>\<open>'boom'\<close>. A write
  to a frozen object answers false and writes nothing. Object 30 is the regular
  expression \<^verbatim>\<open>/a/g\<close> and 31 is \<^verbatim>\<open>/a/\<close>. Every \<^verbatim>\<open>new Proxy\<close> succeeds with the next fresh
  reference.
\<close>

record demo_heap =
  next_ref :: ref
  props :: "ref \<times> pkey \<rightharpoonup> jsval"
  promises :: "ref set"
  frozen :: "ref set"
  lastIndex :: "ref \<Rightarrow> nat"

fun find_char :: "char \<Rightarrow> string \<Rightarrow> nat option" where
  "find_char c [] = None"
| "find_char c (x # xs) = (if x = c then Some 0 else map_option Suc (find_char c xs))"

text \<open>
  \<^verbatim>\<open>/a/g.test(text)\<close>: the search starts at \<^verbatim>\<open>lastIndex\<close>; a match moves \<^verbatim>\<open>lastIndex\<close>
  behind itself, a failure sets it to 0.
\<close>

definition test_a_global :: "ref \<Rightarrow> string \<Rightarrow> demo_heap \<Rightarrow> bool \<times> demo_heap" where
  "test_a_global r text h =
     (if lastIndex h r > length text then (False, h\<lparr>lastIndex := (lastIndex h)(r := 0)\<rparr>)
      else
        (case find_char (CHR ''a'') (drop (lastIndex h r) text) of
           None \<Rightarrow> (False, h\<lparr>lastIndex := (lastIndex h)(r := 0)\<rparr>)
         | Some k \<Rightarrow> (True, h\<lparr>lastIndex := (lastIndex h)(r := lastIndex h r + k + 1)\<rparr>)))"

definition demo_host :: "demo_heap host" where
  "demo_host =
     \<lparr>is_callable = (\<lambda>h r. r = 10 \<or> r = 11 \<or> r = 12),
      instanceof_Promise = (\<lambda>h r. r \<in> promises h),
      Reflect_get = (\<lambda>target prop receiver h.
         if prop = KStr ''boom'' \<or> prop = KStr ''@@boom'' then (Inl (JStr ''boom''), h)
         else (Inr (case props h (target, prop) of Some v \<Rightarrow> v | None \<Rightarrow> JUndefined), h)),
      Reflect_set = (\<lambda>target prop v receiver h.
         if target \<in> frozen h then (Inr False, h)
         else (Inr True, h\<lparr>props := (props h)((target, prop) \<mapsto> v)\<rparr>)),
      Reflect_apply = (\<lambda>target thisArg argsList h.
         if target = 10 then (Inr (JObj 20), h)
         else if target = 11 then (Inr (JObj 21), h)
         else (Inl (JStr ''boom''), h)),
      Reflect_construct = (\<lambda>target argsList newTarget h. (Inl (JStr ''boom''), h)),
      Reflect_deleteProperty = (\<lambda>target prop h.
         (Inr True, h\<lparr>props := (props h)((target, prop) := None)\<rparr>)),
      RegExp_test = (\<lambda>r text h.
         if r = 30 then test_a_global r text h
         else if r = 31 then (CHR ''a'' \<in> set text, h)
         else (False, h)),
      new_Proxy = (\<lambda>target handler h. (Some (next_ref h), h\<lparr>next_ref := Suc (next_ref h)\<rparr>)),
      Date_now = (\<lambda>h. 0)\<rparr>"

definition demo_heap0 :: demo_heap where
  "demo_heap0 =
     \<lparr>next_ref = 100,
      props = [(1, KStr ''name'') \<mapsto> JStr ''Alice'', (1, KStr ''address'') \<mapsto> JObj 2,
                (2, KStr ''city'') \<mapsto> JStr ''Wonderland'', (21, KStr ''then'') \<mapsto> JObj 12],
      promises = {20},
      frozen = {},
      lastIndex = (\<lambda>r. 0)\<rparr>"

text \<open>
  Four observers: one returns and one throws, both leaving the heap alone; two freeze
  the target of the event, and one of them returns and the other throws.
\<close>

definition quiet_observer :: "event \<Rightarrow> demo_heap \<Rightarrow> jsval option \<times> demo_heap" where
  "quiet_observer e h = (None, h)"

definition throwing_observer :: "event \<Rightarrow> demo_heap \<Rightarrow> jsval option \<times> demo_heap" where
  "throwing_observer e h = (Some (JStr ''observer failed''), h)"

definition freezing_observer :: "event \<Rightarrow> demo_heap \<Rightarrow> jsval option \<times> demo_heap" where
  "freezing_observer e h = (None, h\<lparr>frozen := insert (ev_target e) (frozen h)\<rparr>)"

definition freezing_throwing_observer :: "event \<Rightarrow> demo_heap \<Rightarrow> jsval option \<times> demo_heap" where
  "freezing_throwing_observer e h =
     (Some (JStr ''observer failed''), h\<lparr>frozen := insert (ev_target e) (frozen h)\<rparr>)"

text \<open>A session of the small host: a depth limit, the two pattern lists, the observer.\<close>

definition demo_session ::
  "nat option \<Rightarrow> pattern list option \<Rightarrow> pattern list option
     \<Rightarrow> (event \<Rightarrow> demo_heap \<Rightarrow> jsval option \<times> demo_heap) \<Rightarrow> demo_heap session" where
  "demo_session limit incl excl f =
     \<lparr>depthLimit = limit, include_patterns = incl, exclude_patterns = excl, onEvent = f\<rparr>"

section \<open>Rendering a path\<close>

lemma reduce_path_snoc:
  "reduce_path acc i (p @ [seg]) = render_segment (reduce_path acc i p) seg (i + length p)"
  by (induction p arbitrary: acc i) simp_all

lemma pathToAccessor_snoc:
  "pathToAccessor (p @ [seg]) = render_segment (pathToAccessor p) seg (length p)"
  by (cases p) (simp_all add: pathToAccessor_def reduce_path_snoc)

lemma digit_not_ident_start: "is_digit c \<Longrightarrow> \<not> is_ident_start c"
  by (auto simp: is_digit_def is_ident_start_def Let_def)

lemma bracket_not_ident_start: "\<not> is_ident_start (CHR ''['')"
  by (simp add: is_ident_start_def)

lemma bracket_not_digit: "\<not> is_digit (CHR ''['')"
  by (simp add: is_digit_def)

lemma all_digits_not_marker: "all_digits s \<Longrightarrow> \<not> is_marker s"
  by (cases s) (auto simp: all_digits_def is_marker_def bracket_not_digit)

lemma identifier_not_marker: "isValidIdentifier s \<Longrightarrow> \<not> is_marker s"
  by (cases s) (auto simp: is_marker_def bracket_not_ident_start)

lemma identifier_not_all_digits: "isValidIdentifier s \<Longrightarrow> \<not> all_digits s"
  by (cases s) (auto simp: all_digits_def digit_not_ident_start)

lemma render_number: "pathToAccessor (p @ [SNum n]) = pathToAccessor p @ ''['' @ string_of_int n @ '']''"
  by (simp add: pathToAccessor_snoc)

lemma render_digits:
  "all_digits s \<Longrightarrow> pathToAccessor (p @ [SStr s]) = pathToAccessor p @ ''['' @ s @ '']''"
  by (simp add: pathToAccessor_snoc all_digits_not_marker)

lemma render_marker: "is_marker s \<Longrightarrow> pathToAccessor (p @ [SStr s]) = pathToAccessor p @ s"
  by (simp add: pathToAccessor_snoc)

lemma render_identifier_first: "isValidIdentifier s \<Longrightarrow> pathToAccessor [SStr s] = s"
  by (simp add: pathToAccessor_def identifier_not_marker identifier_not_all_digits)

lemma render_identifier_later:
  "isValidIdentifier s \<Longrightarrow> p \<noteq> [] \<Longrightarrow> pathToAccessor (p @ [SStr s]) = pathToAccessor p @ ''.'' @ s"
  by (simp add: pathToAccessor_snoc identifier_not_marker identifier_not_all_digits)

lemma render_quoted:
  "\<not> isValidIdentifier s \<Longrightarrow> \<not> is_marker s \<Longrightarrow> \<not> all_digits s \<Longrightarrow>
   pathToAccessor (p @ [SStr s]) = pathToAccessor p @ ''['' @ JSON_stringify s @ '']''"
  by (simp add: pathToAccessor_snoc) (simp add: pathToAccessor_def)

lemmas path_eval = pathToAccessor_def is_marker_def all_digits_def is_digit_def
  is_ident_start_def is_ident_part_def string_of_int_def string_of_nat.simps
  JSON_stringify_def json_escape_def

lemma render_example_1: "pathToAccessor [SStr ''a'', SStr ''b'', SNum 2, SStr ''c''] = ''a.b[2].c''"
  by (simp add: path_eval)

lemma render_example_2:
  "pathToAccessor [SStr ''user-name''] = ''['' @ [CHR 0x22] @ ''user-name'' @ [CHR 0x22] @ '']''"
  by (simp add: path_eval)

text \<open>
  Claim C9, as the code has it. \<^verbatim>\<open>pathToAccessor\<close> is a function of the path alone with
  a string for every path. The empty path renders to the empty string. A number segment
  is appended in brackets at every position, and so is a string segment made of digits
  only, without quotes. A string segment that starts with \<^verbatim>\<open>[\<close> and ends with \<^verbatim>\<open>]\<close> is
  appended as it is. An identifier-shaped string segment renders bare at index 0 and with
  a leading dot later. Every other string segment is appended as a bracketed
  \<^verbatim>\<open>JSON.stringify\<close> literal. The path \<^verbatim>\<open>["a","b",2,"c"]\<close> renders to \<^verbatim>\<open>a.b[2].c\<close> and
  \<^verbatim>\<open>["user-name"]\<close> to \<^verbatim>\<open>["user-name"]\<close>.
\<close>

theorem pathToAccessor_rendering:
  "pathToAccessor [] = [] \<and>
   pathToAccessor (p @ [SNum n]) = pathToAccessor p @ ''['' @ string_of_int n @ '']'' \<and>
   (all_digits s \<longrightarrow> pathToAccessor (p @ [SStr s]) = pathToAccessor p @ ''['' @ s @ '']'') \<and>
   (is_marker s \<longrightarrow> pathToAccessor (p @ [SStr s]) = pathToAccessor p @ s) \<and>
   (isValidIdentifier s \<longrightarrow> pathToAccessor [SStr s] = s) \<and>
   (isValidIdentifier s \<and> p \<noteq> [] \<longrightarrow> pathToAccessor (p @ [SStr s]) = pathToAccessor p @ ''.'' @ s) \<and>
   (\<not> isValidIdentifier s \<and> \<not> is_marker s \<and> \<not> all_digits s \<longrightarrow>
      pathToAccessor (p @ [SStr s]) = pathToAccessor p @ ''['' @ JSON_stringify s @ '']'') \<and>
   pathToAccessor [SStr ''a'', SStr ''b'', SNum 2, SStr ''c''] = ''a.b[2].c'' \<and>
   pathToAccessor [SStr ''user-name''] = ''['' @ [CHR 0x22] @ ''user-name'' @ [CHR 0x22] @ '']''"
proof -
  have "pathToAccessor [] = []" by (simp add: pathToAccessor_def)
  then show ?thesis
    using render_number render_digits render_marker render_identifier_first
      render_identifier_later render_quoted render_example_1 render_example_2
    by blast
qed

theorem pathToAccessor_rendering_witness:
  "all_digits ''0'' \<and> pathToAccessor ([SStr ''items''] @ [SStr ''0'']) = ''items[0]'' \<and>
   is_marker ''[sync-result]'' \<and> pathToAccessor ([SStr ''f''] @ [SStr ''[sync-result]'']) = ''f[sync-result]'' \<and>
   isValidIdentifier ''c'' \<and> pathToAccessor [SStr ''c''] = ''c'' \<and>
   pathToAccessor ([SStr ''a''] @ [SStr ''c'']) = ''a.c'' \<and>
   \<not> isValidIdentifier ''my-account'' \<and> \<not> is_marker ''my-account'' \<and> \<not> all_digits ''my-account'' \<and>
   pathToAccessor ([SStr ''user''] @ [SStr ''my-account''])
     = ''user['' @ [CHR 0x22] @ ''my-account'' @ [CHR 0x22] @ '']''"
  using pathToAccessor_rendering [of "[SStr ''items'']" 0 "''0''"]
    pathToAccessor_rendering [of "[SStr ''f'']" 0 "''[sync-result]''"]
    pathToAccessor_rendering [of "[SStr ''a'']" 0 "''c''"]
    pathToAccessor_rendering [of "[SStr ''user'']" 0 "''my-account''"]
  by (simp add: path_eval)

text \<open>
  Claim C9 as stated fails for a string segment that is not identifier-shaped but is made
  of digits: the index \<^verbatim>\<open>"0"\<close> that a trap receives for \<^verbatim>\<open>items[0]\<close> renders as
  \<^verbatim>\<open>[0]\<close>, not as the quoted literal \<^verbatim>\<open>["0"]\<close>.
\<close>

theorem pathToAccessor_digit_string_counterexample:
  "\<not> isValidIdentifier ''0'' \<and>
   pathToAccessor [SStr ''items'', SStr ''0''] = ''items[0]'' \<and>
   pathToAccessor [SStr ''items'', SStr ''0''] \<noteq> pathToAccessor [SStr ''items''] @ ''['' @ JSON_stringify ''0'' @ '']''"
  by (simp add: path_eval)

section \<open>The filter\<close>











lemmas filter_eval = shouldWatch_def matchPatterns_def startsWith_def





section \<open>The event emitter\<close>

lemma emitEvent_objToWrapper [simp]: "objToWrapper (emitEvent host s ev w) = objToWrapper w"
  by (simp add: emitEvent_def split: prod.splits bool.splits option.splits)

lemma emitEvent_processingObjects [simp]: "processingObjects (emitEvent host s ev w) = processingObjects w"
  by (simp add: emitEvent_def split: prod.splits bool.splits option.splits)

lemma emitEvent_reactions [simp]: "reactions (emitEvent host s ev w) = reactions w"
  by (simp add: emitEvent_def split: prod.splits bool.splits option.splits)

lemma emitEvent_settled [simp]: "settled (emitEvent host s ev w) = settled w"
  by (simp add: emitEvent_def split: prod.splits bool.splits option.splits)

lemma emitEvent_emitted [simp]: "emitted (emitEvent host s ev w) = emitted w @ [ev]"
  by (simp add: emitEvent_def split: prod.splits bool.splits option.splits)

lemma emitEvent_eq:
  assumes "shouldWatch host (include_patterns s) (exclude_patterns s) (ev_accessor ev) (heap w) = (watched, h1)"
    "onEvent s ev h1 = (thrown, h2)"
  shows "emitEvent host s ev w =
     w\<lparr>heap := (if watched then h2 else h1),
       emitted := emitted w @ [ev],
       delivered := delivered w @ (if watched then [(ev, h1)] else []),
       warnings := warnings w @ (if watched then (case thrown of None \<Rightarrow> [] | Some x \<Rightarrow> [x]) else [])\<rparr>"
  using assms by (cases w; cases watched; cases thrown) (simp_all add: emitEvent_def)

lemma without_warnings_eq_iff:
  "without_warnings w = without_warnings w' \<longleftrightarrow>
     heap w = heap w' \<and> objToWrapper w = objToWrapper w' \<and>
     processingObjects w = processingObjects w' \<and> reactions w = reactions w' \<and>
     settled w = settled w' \<and> emitted w = emitted w' \<and> delivered w = delivered w'"
  by (cases w; cases w') (auto simp: without_warnings_def)

lemma emitEvent_observer_free:
  assumes "without_warnings w = without_warnings w'" "\<forall>e h. snd (g e h) = snd (onEvent s e h)"
  shows "without_warnings (emitEvent host (s\<lparr>onEvent := g\<rparr>) ev w') = without_warnings (emitEvent host s ev w)"
proof -
  obtain watched h1 where sw:
    "shouldWatch host (include_patterns s) (exclude_patterns s) (ev_accessor ev) (heap w) = (watched, h1)"
    by (cases "shouldWatch host (include_patterns s) (exclude_patterns s) (ev_accessor ev) (heap w)")
  obtain th h2 where f: "onEvent s ev h1 = (th, h2)" by (cases "onEvent s ev h1")
  obtain th' h2' where g: "g ev h1 = (th', h2')" by (cases "g ev h1")
  have "h2' = h2" using assms(2) f g by (metis snd_conv)
  moreover have "heap w' = heap w" using assms(1) by (simp add: without_warnings_eq_iff)
  ultimately show ?thesis
    using assms(1) sw f g
      emitEvent_eq [of host s ev w watched h1 th h2]
      emitEvent_eq [of host "s\<lparr>onEvent := g\<rparr>" ev w' watched h1 th' h2']
    by (simp add: without_warnings_eq_iff)
qed

lemma createProxy_observer_free:
  assumes "without_warnings w = without_warnings w'"
  shows "map_prod id without_warnings (createProxy host (s\<lparr>onEvent := g\<rparr>) obj path depth w')
       = map_prod id without_warnings (createProxy host s obj path depth w)"
  using assms
  by (auto simp: without_warnings_eq_iff createProxy_def Let_def split: jsval.splits option.splits prod.splits)

lemma executeOperation_observer_free:
  assumes "without_warnings w = without_warnings w'" "\<forall>e h. snd (g e h) = snd (onEvent s e h)"
  shows "map_prod id without_warnings (executeOperation host (s\<lparr>onEvent := g\<rparr>) operation eb w')
       = map_prod id without_warnings (executeOperation host s operation eb w)"
proof -
  have h: "heap w' = heap w" using assms(1) by (simp add: without_warnings_eq_iff)
  obtain res h' where op: "operation (heap w) = (res, h')" by (cases "operation (heap w)")
  have ww: "without_warnings (w\<lparr>heap := h'\<rparr>) = without_warnings (w'\<lparr>heap := h'\<rparr>)"
    using assms(1) by (simp add: without_warnings_eq_iff)
  show ?thesis
    using op h emitEvent_observer_free [OF ww assms(2)]
    by (cases res) (simp_all add: executeOperation_def)
qed

section \<open>The observer cannot interfere\<close>

lemma createEventBase_heap:
  "heap w' = heap w \<Longrightarrow> createEventBase host ty path target prop w' = createEventBase host ty path target prop w"
  by (simp add: createEventBase_def)

lemma without_warnings_heap: "without_warnings w = without_warnings w' \<Longrightarrow> heap w' = heap w"
  by (simp add: without_warnings_eq_iff)

lemma without_warnings_set_heap:
  "without_warnings w = without_warnings w' \<Longrightarrow>
   without_warnings (w\<lparr>heap := h\<rparr>) = without_warnings (w'\<lparr>heap := h\<rparr>)"
  by (simp add: without_warnings_eq_iff)

lemma map_prod_eqD:
  "map_prod id without_warnings p' = map_prod id without_warnings p \<Longrightarrow>
   fst p' = fst p \<and> without_warnings (snd p) = without_warnings (snd p')"
  by (cases p; cases p') simp

lemma get_observer_free:
  assumes "without_warnings w = without_warnings w'" "\<forall>e h. snd (g e h) = snd (onEvent s e h)"
  shows "map_prod id without_warnings (createGetHandler host (s\<lparr>onEvent := g\<rparr>) path depth target prop receiver w')
       = map_prod id without_warnings (createGetHandler host s path depth target prop receiver w)"
proof -
  let ?s' = "s\<lparr>onEvent := g\<rparr>"
  have h: "heap w' = heap w" by (rule without_warnings_heap [OF assms(1)])
  have eb: "createEventBase host GET (path @ [segment_of prop]) target (Some prop) w'
          = createEventBase host GET (path @ [segment_of prop]) target (Some prop) w"
    by (rule createEventBase_heap [OF h])
  show ?thesis
  proof (cases "isBuiltinMethod prop")
    case True
    obtain res h' where op: "Reflect_get host target prop receiver (heap w) = (res, h')"
      by (cases "Reflect_get host target prop receiver (heap w)")
    show ?thesis
      using True op h eb emitEvent_observer_free [OF without_warnings_set_heap [OF assms(1), of h'] assms(2)]
        without_warnings_set_heap [OF assms(1), of h']
      by (cases res) (simp_all add: createGetHandler_def)
  next
    case False
    let ?op = "Reflect_get host target prop receiver"
    let ?eb = "createEventBase host GET (path @ [segment_of prop]) target (Some prop) w"
    obtain res w1 where e1: "executeOperation host s ?op ?eb w = (res, w1)"
      by (cases "executeOperation host s ?op ?eb w")
    obtain res' w1' where e2: "executeOperation host ?s' ?op ?eb w' = (res', w1')"
      by (cases "executeOperation host ?s' ?op ?eb w'")
    have r: "res' = res" and ww1: "without_warnings w1 = without_warnings w1'"
      using map_prod_eqD [OF executeOperation_observer_free [OF assms, where host=host and operation="?op" and eb="?eb"]] e1 e2
      by simp_all
    have h1: "heap w1' = heap w1" by (rule without_warnings_heap [OF ww1])
    show ?thesis
    proof (cases res)
      case (Inl e)
      then show ?thesis using False e1 e2 r ww1 eb by (simp add: createGetHandler_def)
    next
      case (Inr v)
      show ?thesis
        using False e1 e2 r ww1 eb h1 Inr
          createProxy_observer_free [OF ww1, where host=host and s=s and g=g and obj=v and path="path @ [segment_of prop]" and depth="depth + 1"]
        by (auto simp: createGetHandler_def split: prod.splits)
    qed
  qed
qed


lemma set_observer_free:
  assumes "without_warnings w = without_warnings w'" "\<forall>e h. snd (g e h) = snd (onEvent s e h)"
  shows "map_prod id without_warnings (createSetHandler host (s\<lparr>onEvent := g\<rparr>) path target prop v receiver w')
       = map_prod id without_warnings (createSetHandler host s path target prop v receiver w)"
proof -
  let ?ev = "(createEventBase host SET (path @ [segment_of prop]) target (Some prop) w)\<lparr>ev_value := Some v\<rparr>"
  let ?w1 = "emitEvent host s ?ev w"
  let ?w1' = "emitEvent host (s\<lparr>onEvent := g\<rparr>) ?ev w'"
  have h: "heap w' = heap w" by (rule without_warnings_heap [OF assms(1)])
  have eb: "createEventBase host SET (path @ [segment_of prop]) target (Some prop) w'
          = createEventBase host SET (path @ [segment_of prop]) target (Some prop) w"
    by (rule createEventBase_heap [OF h])
  have ww1: "without_warnings ?w1' = without_warnings ?w1"
    by (rule emitEvent_observer_free [OF assms])
  have h1: "heap ?w1' = heap ?w1" using ww1 by (simp add: without_warnings_eq_iff)
  obtain res h' where op: "Reflect_set host target prop v receiver (heap ?w1) = (res, h')"
    by (cases "Reflect_set host target prop v receiver (heap ?w1)")
  have "without_warnings (?w1'\<lparr>heap := h'\<rparr>) = without_warnings (?w1\<lparr>heap := h'\<rparr>)"
    using ww1 by (simp add: without_warnings_eq_iff)
  then show ?thesis
    using op h1 eb by (simp add: createSetHandler_def Let_def)
qed

lemma delete_observer_free:
  assumes "without_warnings w = without_warnings w'" "\<forall>e h. snd (g e h) = snd (onEvent s e h)"
  shows "map_prod id without_warnings (createDeleteHandler host (s\<lparr>onEvent := g\<rparr>) path target prop w')
       = map_prod id without_warnings (createDeleteHandler host s path target prop w)"
proof -
  let ?ev = "createEventBase host DELETE_PROPERTY (path @ [segment_of prop]) target (Some prop) w"
  let ?w1 = "emitEvent host s ?ev w"
  let ?w1' = "emitEvent host (s\<lparr>onEvent := g\<rparr>) ?ev w'"
  have h: "heap w' = heap w" by (rule without_warnings_heap [OF assms(1)])
  have eb: "createEventBase host DELETE_PROPERTY (path @ [segment_of prop]) target (Some prop) w' = ?ev"
    by (rule createEventBase_heap [OF h])
  have ww1: "without_warnings ?w1' = without_warnings ?w1"
    by (rule emitEvent_observer_free [OF assms])
  have h1: "heap ?w1' = heap ?w1" using ww1 by (simp add: without_warnings_eq_iff)
  obtain res h' where op: "Reflect_deleteProperty host target prop (heap ?w1) = (res, h')"
    by (cases "Reflect_deleteProperty host target prop (heap ?w1)")
  have "without_warnings (?w1'\<lparr>heap := h'\<rparr>) = without_warnings (?w1\<lparr>heap := h'\<rparr>)"
    using ww1 by (simp add: without_warnings_eq_iff)
  then show ?thesis
    using op h1 eb by (simp add: createDeleteHandler_def Let_def)
qed

lemma handlePromiseResult_observer_free:
  "without_warnings w = without_warnings w' \<Longrightarrow>
   without_warnings (handlePromiseResult p eb w) = without_warnings (handlePromiseResult p eb w')"
  by (simp add: without_warnings_eq_iff handlePromiseResult_def)

lemma apply_observer_free:
  assumes "without_warnings w = without_warnings w'" "\<forall>e h. snd (g e h) = snd (onEvent s e h)"
  shows "map_prod id without_warnings (createApplyHandler host (s\<lparr>onEvent := g\<rparr>) path depth target thisArg argsList w')
       = map_prod id without_warnings (createApplyHandler host s path depth target thisArg argsList w)"
proof -
  let ?s' = "s\<lparr>onEvent := g\<rparr>"
  let ?op = "Reflect_apply host target thisArg argsList"
  let ?eb = "(createEventBase host APPLY path target None w)\<lparr>ev_args := Some argsList\<rparr>"
  have h: "heap w' = heap w" by (rule without_warnings_heap [OF assms(1)])
  have eb: "createEventBase host APPLY path target None w' = createEventBase host APPLY path target None w"
    by (rule createEventBase_heap [OF h])
  obtain res w1 where e1: "executeOperation host s ?op ?eb w = (res, w1)"
    by (cases "executeOperation host s ?op ?eb w")
  obtain res' w1' where e2: "executeOperation host ?s' ?op ?eb w' = (res', w1')"
    by (cases "executeOperation host ?s' ?op ?eb w'")
  have r: "res' = res" and ww1: "without_warnings w1 = without_warnings w1'"
    using map_prod_eqD [OF executeOperation_observer_free
        [OF assms, where host=host and operation="?op" and eb="?eb"]] e1 e2
    by simp_all
  have h1: "heap w1' = heap w1" by (rule without_warnings_heap [OF ww1])
  show ?thesis
  proof (cases res)
    case (Inl e)
    then show ?thesis using e1 e2 r ww1 eb by (simp add: createApplyHandler_def)
  next
    case (Inr v)
    show ?thesis
      using e1 e2 r ww1 eb h1 Inr handlePromiseResult_observer_free [OF ww1, of v ?eb]
        createProxy_observer_free [OF ww1, where host=host and s=s and g=g and obj=v
          and path="path @ [SStr SYNC_RESULT]" and depth="depth + 1"]
      by (auto simp: createApplyHandler_def split: prod.splits)
  qed
qed

lemma construct_observer_free:
  assumes "without_warnings w = without_warnings w'" "\<forall>e h. snd (g e h) = snd (onEvent s e h)"
  shows "map_prod id without_warnings (createConstructHandler host (s\<lparr>onEvent := g\<rparr>) path depth target argsList newTarget w')
       = map_prod id without_warnings (createConstructHandler host s path depth target argsList newTarget w)"
proof -
  let ?s' = "s\<lparr>onEvent := g\<rparr>"
  let ?op = "Reflect_construct host target argsList newTarget"
  let ?eb = "(createEventBase host CONSTRUCT path target None w)\<lparr>ev_args := Some argsList\<rparr>"
  have h: "heap w' = heap w" by (rule without_warnings_heap [OF assms(1)])
  have eb: "createEventBase host CONSTRUCT path target None w' = createEventBase host CONSTRUCT path target None w"
    by (rule createEventBase_heap [OF h])
  obtain res w1 where e1: "executeOperation host s ?op ?eb w = (res, w1)"
    by (cases "executeOperation host s ?op ?eb w")
  obtain res' w1' where e2: "executeOperation host ?s' ?op ?eb w' = (res', w1')"
    by (cases "executeOperation host ?s' ?op ?eb w'")
  have r: "res' = res" and ww1: "without_warnings w1 = without_warnings w1'"
    using map_prod_eqD [OF executeOperation_observer_free
        [OF assms, where host=host and operation="?op" and eb="?eb"]] e1 e2
    by simp_all
  show ?thesis
  proof (cases res)
    case (Inl e)
    then show ?thesis using e1 e2 r ww1 eb by (simp add: createConstructHandler_def)
  next
    case (Inr v)
    show ?thesis
      using e1 e2 r ww1 eb Inr
        createProxy_observer_free [OF ww1, where host=host and s=s and g=g and obj=v
          and path="path @ [SStr CONSTRUCTED]" and depth="depth + 1"]
      by (auto simp: createConstructHandler_def split: prod.splits)
  qed
qed

lemma run_reaction_observer_free:
  assumes "without_warnings w = without_warnings w'" "\<forall>e h. snd (g e h) = snd (onEvent s e h)"
  shows "without_warnings (run_reaction host (s\<lparr>onEvent := g\<rparr>) out eb w')
       = without_warnings (run_reaction host s out eb w)"
proof (cases out)
  case (Fulfilled v)
  then show ?thesis using emitEvent_observer_free [OF assms] by (simp add: onFulfilled_def)
next
  case (Rejected e)
  then show ?thesis using emitEvent_observer_free [OF assms] by (simp add: onRejected_def)
qed

lemma run_reaction_settled [simp]: "settled (run_reaction host s out eb w) = settled w"
  by (cases out) (simp_all add: onFulfilled_def onRejected_def)

lemma run_reactions_observer_free:
  assumes "\<forall>e h. snd (g e h) = snd (onEvent s e h)"
  shows "without_warnings w = without_warnings w' \<Longrightarrow>
   without_warnings (run_reactions host (s\<lparr>onEvent := g\<rparr>) rs w')
     = without_warnings (run_reactions host s rs w)"
proof (induction rs arbitrary: w w')
  case Nil
  then show ?case by simp
next
  case (Cons r rs)
  obtain q eb where r: "r = (q, eb)" by (cases r)
  have st: "settled w' = settled w" using Cons.prems by (simp add: without_warnings_eq_iff)
  show ?case
  proof (cases "settled w q")
    case None
    from Cons.IH [OF Cons.prems] show ?thesis using None r st by simp
  next
    case (Some out)
    have "without_warnings (run_reaction host s out eb w)
        = without_warnings (run_reaction host (s\<lparr>onEvent := g\<rparr>) out eb w')"
      using run_reaction_observer_free [OF Cons.prems assms] by simp
    from Cons.IH [OF this] show ?thesis using Some r st by simp
  qed
qed

lemma run_jobs_observer_free:
  assumes "without_warnings w = without_warnings w'" "\<forall>e h. snd (g e h) = snd (onEvent s e h)"
  shows "without_warnings (run_jobs host (s\<lparr>onEvent := g\<rparr>) w') = without_warnings (run_jobs host s w)"
proof -
  have rs: "reactions w' = reactions w" and st: "settled w' = settled w"
    using assms(1) by (simp_all add: without_warnings_eq_iff)
  have "without_warnings (w\<lparr>reactions := filter (\<lambda>(q, eventBase). settled w q = None) (reactions w)\<rparr>)
      = without_warnings (w'\<lparr>reactions := filter (\<lambda>(q, eventBase). settled w q = None) (reactions w)\<rparr>)"
    using assms(1) by (simp add: without_warnings_eq_iff)
  from run_reactions_observer_free [OF assms(2) this] show ?thesis using rs st by (simp add: run_jobs_def)
qed

lemma resolve_promise_observer_free:
  "without_warnings w = without_warnings w' \<Longrightarrow>
   without_warnings (resolve_promise p out w) = without_warnings (resolve_promise p out w')"
  by (auto simp: without_warnings_eq_iff resolve_promise_def split: option.splits)

lemma settle_observer_free:
  assumes "without_warnings w = without_warnings w'" "\<forall>e h. snd (g e h) = snd (onEvent s e h)"
  shows "without_warnings (settle host (s\<lparr>onEvent := g\<rparr>) p out w') = without_warnings (settle host s p out w)"
  unfolding settle_def
  by (rule run_jobs_observer_free [OF resolve_promise_observer_free [OF assms(1)] assms(2)])

lemma session_of_observer: "session_of g opts = (session_of f opts)\<lparr>onEvent := g\<rparr>"
  by (simp add: session_of_def)

lemma createDetector_observer_free:
  "map_sum id (map_prod id without_warnings) (createDetector host target (Callback g) opts h)
 = map_sum id (map_prod id without_warnings) (createDetector host target (Callback f) opts h)"
  using createProxy_observer_free [OF refl, where host=host and s="session_of f opts" and g=g]
  by (simp add: createDetector_def session_of_observer [of g opts f])

lemmas demo_eval = demo_host_def demo_heap0_def demo_session_def quiet_observer_def
  throwing_observer_def freezing_observer_def freezing_throwing_observer_def new_world_def
  test_a_global_def
lemmas model_eval = createProxy_def createGetHandler_def createSetHandler_def createApplyHandler_def
  createConstructHandler_def createDeleteHandler_def executeOperation_def emitEvent_def
  createEventBase_def isPromise_def exceeds_def handlePromiseResult_def BUILTIN_SYMBOLS_def
  SYNC_RESULT_def CONSTRUCTED_def settle_def run_jobs_def resolve_promise_def
  onFulfilled_def onRejected_def

text \<open>
  Claim C7. The observer is arbitrary code: it is called with the live target, may change
  the heap, and returns or throws. Take two observers that do the same to the heap on
  every event and differ only in returning or throwing, and two worlds that differ at
  most in what was written to \<^verbatim>\<open>console.warn\<close>. Each of the five traps returns the same
  value or throws the same exception under both observers, and leaves worlds that again
  differ at most in the warnings; so do the settlement of a promise and the run of its
  continuations. \<^verbatim>\<open>emitEvent\<close> itself always returns: with the answer of the filter and
  the outcome of the callback named, it leaves the heap of the callback (or of the filter,
  if the event is filtered out), records the event, and adds the thrown value to the
  warnings and to nothing else.
\<close>

theorem observer_noninterference:
  assumes "without_warnings w = without_warnings w'" "\<forall>e h. snd (g e h) = snd (onEvent s e h)"
  shows
  "map_prod id without_warnings (createGetHandler host (s\<lparr>onEvent := g\<rparr>) path depth target key receiver w')
     = map_prod id without_warnings (createGetHandler host s path depth target key receiver w) \<and>
   map_prod id without_warnings (createSetHandler host (s\<lparr>onEvent := g\<rparr>) path target key v receiver w')
     = map_prod id without_warnings (createSetHandler host s path target key v receiver w) \<and>
   map_prod id without_warnings (createApplyHandler host (s\<lparr>onEvent := g\<rparr>) path depth target thisArg argsList w')
     = map_prod id without_warnings (createApplyHandler host s path depth target thisArg argsList w) \<and>
   map_prod id without_warnings (createConstructHandler host (s\<lparr>onEvent := g\<rparr>) path depth target argsList newTarget w')
     = map_prod id without_warnings (createConstructHandler host s path depth target argsList newTarget w) \<and>
   map_prod id without_warnings (createDeleteHandler host (s\<lparr>onEvent := g\<rparr>) path target key w')
     = map_prod id without_warnings (createDeleteHandler host s path target key w) \<and>
   without_warnings (settle host (s\<lparr>onEvent := g\<rparr>) p out w') = without_warnings (settle host s p out w) \<and>
   without_warnings (run_jobs host (s\<lparr>onEvent := g\<rparr>) w') = without_warnings (run_jobs host s w) \<and>
   (shouldWatch host (include_patterns s) (exclude_patterns s) (ev_accessor ev) (heap w) = (watched, h1) \<and>
    onEvent s ev h1 = (thrown, h2) \<longrightarrow>
      emitEvent host s ev w =
        w\<lparr>heap := (if watched then h2 else h1),
          emitted := emitted w @ [ev],
          delivered := delivered w @ (if watched then [(ev, h1)] else []),
          warnings := warnings w @
            (if watched then (case thrown of None \<Rightarrow> [] | Some x \<Rightarrow> [x]) else [])\<rparr>)"
proof (intro conjI impI)
  assume "shouldWatch host (include_patterns s) (exclude_patterns s) (ev_accessor ev) (heap w) = (watched, h1) \<and>
    onEvent s ev h1 = (thrown, h2)"
  then show "emitEvent host s ev w =
        w\<lparr>heap := (if watched then h2 else h1),
          emitted := emitted w @ [ev],
          delivered := delivered w @ (if watched then [(ev, h1)] else []),
          warnings := warnings w @
            (if watched then (case thrown of None \<Rightarrow> [] | Some x \<Rightarrow> [x]) else [])\<rparr>"
    by (intro emitEvent_eq) simp_all
qed (rule get_observer_free set_observer_free apply_observer_free construct_observer_free
      delete_observer_free settle_observer_free run_jobs_observer_free, rule assms, rule assms)+

theorem observer_noninterference_witness:
  "fst (createSetHandler demo_host (demo_session None None None freezing_throwing_observer)
          [SStr ''address''] 2 (KStr ''city'') (JStr ''New York'') (JObj 99) (new_world demo_heap0))
     = fst (createSetHandler demo_host (demo_session None None None freezing_observer)
          [SStr ''address''] 2 (KStr ''city'') (JStr ''New York'') (JObj 99) (new_world demo_heap0)) \<and>
   fst (createSetHandler demo_host (demo_session None None None freezing_observer)
          [SStr ''address''] 2 (KStr ''city'') (JStr ''New York'') (JObj 99) (new_world demo_heap0))
     = Inr False \<and>
   warnings (snd (createSetHandler demo_host (demo_session None None None freezing_throwing_observer)
          [SStr ''address''] 2 (KStr ''city'') (JStr ''New York'') (JObj 99) (new_world demo_heap0)))
     = [JStr ''observer failed''] \<and>
   fst (createGetHandler demo_host (demo_session None None None throwing_observer) [] 0 1
          (KStr ''boom'') (JObj 99) (new_world demo_heap0))
     = fst (createGetHandler demo_host (demo_session None None None quiet_observer) [] 0 1
          (KStr ''boom'') (JObj 99) (new_world demo_heap0)) \<and>
   fst (createGetHandler demo_host (demo_session None None None quiet_observer) [] 0 1
          (KStr ''boom'') (JObj 99) (new_world demo_heap0)) = Inl (JStr ''boom'') \<and>
   fst (createSetHandler demo_host (demo_session None None None throwing_observer)
          [SStr ''address''] 2 (KStr ''city'') (JStr ''New York'') (JObj 99) (new_world demo_heap0))
     = Inr True"
proof -
  let ?w = "new_world demo_heap0"
  have s1: "(demo_session None None None freezing_observer)\<lparr>onEvent := freezing_throwing_observer\<rparr>
         = demo_session None None None freezing_throwing_observer"
    and s2: "(demo_session None None None quiet_observer)\<lparr>onEvent := throwing_observer\<rparr>
         = demo_session None None None throwing_observer"
    by (simp_all add: demo_session_def)
  have e1: "\<forall>e h. snd (freezing_throwing_observer e h)
      = snd (onEvent (demo_session None None None freezing_observer) e h)"
    and e2: "\<forall>e h. snd (throwing_observer e h)
      = snd (onEvent (demo_session None None None quiet_observer) e h)"
    by (simp_all add: demo_eval)
  have a: "fst (createSetHandler demo_host (demo_session None None None freezing_throwing_observer)
          [SStr ''address''] 2 (KStr ''city'') (JStr ''New York'') (JObj 99) ?w)
     = fst (createSetHandler demo_host (demo_session None None None freezing_observer)
          [SStr ''address''] 2 (KStr ''city'') (JStr ''New York'') (JObj 99) ?w)"
    using observer_noninterference [OF refl e1, where host=demo_host and w="?w"
        and path="[SStr ''address'']" and target=2 and key="KStr ''city''" and v="JStr ''New York''"
        and receiver="JObj 99",
        THEN conjunct2, THEN conjunct1, THEN map_prod_eqD, THEN conjunct1]
    by (simp only: s1)
  have b: "fst (createGetHandler demo_host (demo_session None None None throwing_observer) [] 0 1
          (KStr ''boom'') (JObj 99) ?w)
     = fst (createGetHandler demo_host (demo_session None None None quiet_observer) [] 0 1
          (KStr ''boom'') (JObj 99) ?w)"
    using observer_noninterference [OF refl e2, where host=demo_host and w="?w"
        and path="[]" and depth=0 and target=1 and key="KStr ''boom''" and receiver="JObj 99",
        THEN conjunct1, THEN map_prod_eqD, THEN conjunct1]
    by (simp only: s2)
  have c: "fst (createSetHandler demo_host (demo_session None None None freezing_observer)
          [SStr ''address''] 2 (KStr ''city'') (JStr ''New York'') (JObj 99) ?w) = Inr False"
    by (simp add: model_eval demo_eval path_eval filter_eval)
  have d: "warnings (snd (createSetHandler demo_host (demo_session None None None freezing_throwing_observer)
          [SStr ''address''] 2 (KStr ''city'') (JStr ''New York'') (JObj 99) ?w)) = [JStr ''observer failed'']"
    by (simp add: model_eval demo_eval path_eval filter_eval)
  have e: "fst (createGetHandler demo_host (demo_session None None None quiet_observer) [] 0 1
          (KStr ''boom'') (JObj 99) ?w) = Inl (JStr ''boom'')"
    by (simp add: model_eval demo_eval path_eval filter_eval)
  have f: "fst (createSetHandler demo_host (demo_session None None None throwing_observer)
          [SStr ''address''] 2 (KStr ''city'') (JStr ''New York'') (JObj 99) ?w) = Inr True"
    by (simp add: model_eval demo_eval path_eval filter_eval)
  show ?thesis using a b c d e f by simp
qed

section \<open>Wrapping a value\<close>

lemma exceeds_zero [simp]: "\<not> exceeds 0 limit"
  by (simp add: exceeds_def split: option.splits)

lemma createProxy_primitive:
  "obj = JNull \<or> (typeof host (heap w) obj \<noteq> T_object \<and> typeof host (heap w) obj \<noteq> T_function) \<Longrightarrow>
   createProxy host s obj path depth w = (obj, w)"
  by (simp add: createProxy_def)

lemma createProxy_too_deep:
  "exceeds depth (depthLimit s) \<Longrightarrow> createProxy host s obj path depth w = (obj, w)"
  by (simp add: createProxy_def)

lemma createProxy_promise:
  "isPromise host (heap w) obj \<Longrightarrow> createProxy host s obj path depth w = (obj, w)"
  by (simp add: createProxy_def)

lemma createProxy_in_progress:
  "r \<in> processingObjects w \<Longrightarrow> objToWrapper w r = None \<Longrightarrow>
   createProxy host s (JObj r) path depth w = (JObj r, w)"
  by (simp add: createProxy_def)

lemma createProxy_cached:
  "objToWrapper w r = Some wr \<Longrightarrow> \<not> exceeds depth (depthLimit s) \<Longrightarrow>
   \<not> instanceof_Promise host (heap w) r \<Longrightarrow>
   createProxy host s (JObj r) path depth w = (JObj wr, w)"
  by (simp add: createProxy_def isPromise_def)

lemma createProxy_fresh:
  assumes "\<not> exceeds depth (depthLimit s)" "\<not> instanceof_Promise host (heap w) r"
    "objToWrapper w r = None" "r \<notin> processingObjects w"
    "new_Proxy host r (Handler path depth) (heap w) = (Some wr, h')"
  shows "createProxy host s (JObj r) path depth w
       = (JObj wr, w\<lparr>heap := h', objToWrapper := (objToWrapper w)(r \<mapsto> wr)\<rparr>)"
  using assms by (cases w) (simp add: createProxy_def isPromise_def)

lemma createProxy_failed:
  assumes "\<not> exceeds depth (depthLimit s)" "\<not> instanceof_Promise host (heap w) r"
    "objToWrapper w r = None" "r \<notin> processingObjects w"
    "new_Proxy host r (Handler path depth) (heap w) = (None, h')"
  shows "createProxy host s (JObj r) path depth w = (JObj r, w\<lparr>heap := h'\<rparr>)"
  using assms by (cases w) (simp add: createProxy_def isPromise_def)

lemma createProxy_result:
  assumes "createProxy host s obj path depth w = (x, w1)" "x \<noteq> obj"
  shows "\<exists>r wr. obj = JObj r \<and> x = JObj wr \<and> objToWrapper w1 r = Some wr"
  using assms
  by (auto simp: createProxy_def Let_def split: if_splits jsval.splits option.splits prod.splits)

lemma createProxy_keeps_entries:
  "objToWrapper w r' = Some y \<Longrightarrow> objToWrapper (snd (createProxy host s obj path depth w)) r' = Some y"
  by (auto simp: createProxy_def Let_def split: if_splits jsval.splits option.splits prod.splits)

lemma createProxy_reactions [simp]:
  "reactions (snd (createProxy host s obj path depth w)) = reactions w"
  by (auto simp: createProxy_def Let_def split: if_splits jsval.splits option.splits prod.splits)

lemma createProxy_delivered [simp]:
  "delivered (snd (createProxy host s obj path depth w)) = delivered w"
  by (auto simp: createProxy_def Let_def split: if_splits jsval.splits option.splits prod.splits)

lemma createProxy_emitted [simp]:
  "emitted (snd (createProxy host s obj path depth w)) = emitted w"
  by (auto simp: createProxy_def Let_def split: if_splits jsval.splits option.splits prod.splits)

lemma createProxy_settled [simp]:
  "settled (snd (createProxy host s obj path depth w)) = settled w"
  by (auto simp: createProxy_def Let_def split: if_splits jsval.splits option.splits prod.splits)

lemma createProxy_warnings [simp]:
  "warnings (snd (createProxy host s obj path depth w)) = warnings w"
  by (auto simp: createProxy_def Let_def split: if_splits jsval.splits option.splits prod.splits)

lemma createProxy_twice:
  assumes "createProxy host s obj path depth w = (x, w1)" "x \<noteq> obj"
    "\<not> exceeds depth' (depthLimit s)" "\<not> isPromise host (heap w1) obj"
  shows "createProxy host s obj path' depth' w1 = (x, w1)"
proof -
  obtain r wr where "obj = JObj r" "x = JObj wr" "objToWrapper w1 r = Some wr"
    using createProxy_result [OF assms(1,2)] by blast
  then show ?thesis using assms(3,4) by (simp add: createProxy_cached isPromise_def)
qed

text \<open>
  Claim C5. \<^verbatim>\<open>createProxy\<close> returns its argument and changes nothing when the argument
  is \<^verbatim>\<open>null\<close> or neither an object nor a function, when the depth is greater than the
  depth limit, when the argument is a promise, and when the argument is in
  \<open>processingObjects\<close> (the registry is consulted first, so this is the case of an
  object without a wrapper). With a depth limit of 0 the root is still given to
  \<^verbatim>\<open>new Proxy\<close> with the handler of the empty path and depth 0 and the wrapper is
  returned and registered; a read through a handler of depth 0 is reported, and its value
  is returned as it is, since it would be wrapped at depth 1.
\<close>

theorem createProxy_passthrough:
  "(obj = JNull \<or> (typeof host (heap w) obj \<noteq> T_object \<and> typeof host (heap w) obj \<noteq> T_function) \<longrightarrow>
      createProxy host s obj path depth w = (obj, w)) \<and>
   (depthLimit s = Some l \<and> l < depth \<longrightarrow> createProxy host s obj path depth w = (obj, w)) \<and>
   (isPromise host (heap w) obj \<longrightarrow> createProxy host s obj path depth w = (obj, w)) \<and>
   (r \<in> processingObjects w \<and> objToWrapper w r = None \<longrightarrow>
      createProxy host s (JObj r) path depth w = (JObj r, w)) \<and>
   (depthLimit s = Some 0 \<and> \<not> instanceof_Promise host h r \<and>
    new_Proxy host r (Handler [] 0) h = (Some wr, h') \<longrightarrow>
      createProxy host s (JObj r) [] 0 (new_world h)
        = (JObj wr, (new_world h')\<lparr>objToWrapper := [r \<mapsto> wr]\<rparr>)) \<and>
   (depthLimit s = Some 0 \<and> Reflect_get host target key receiver (heap w) = (Inr v, h'') \<longrightarrow>
      createGetHandler host s path 0 target key receiver w
        = (Inr v,
           emitEvent host s
             ((createEventBase host GET (path @ [segment_of key]) target (Some key) w)
                \<lparr>ev_result := Some v,
                 ev_isPromise := Some (\<not> isBuiltinMethod key \<and> isPromise host h'' v)\<rparr>)
             (w\<lparr>heap := h''\<rparr>)))"
proof (intro conjI impI)
  assume "obj = JNull \<or> (typeof host (heap w) obj \<noteq> T_object \<and> typeof host (heap w) obj \<noteq> T_function)"
  then show "createProxy host s obj path depth w = (obj, w)" by (rule createProxy_primitive)
next
  assume "depthLimit s = Some l \<and> l < depth"
  then have "exceeds depth (depthLimit s)" by (simp add: exceeds_def)
  then show "createProxy host s obj path depth w = (obj, w)" by (rule createProxy_too_deep)
next
  assume "isPromise host (heap w) obj"
  then show "createProxy host s obj path depth w = (obj, w)" by (rule createProxy_promise)
next
  assume "r \<in> processingObjects w \<and> objToWrapper w r = None"
  then show "createProxy host s (JObj r) path depth w = (JObj r, w)"
    by (simp add: createProxy_in_progress)
next
  assume a: "depthLimit s = Some 0 \<and> \<not> instanceof_Promise host h r \<and>
    new_Proxy host r (Handler [] 0) h = (Some wr, h')"
  have "createProxy host s (JObj r) [] 0 (new_world h)
      = (JObj wr, (new_world h)\<lparr>heap := h', objToWrapper := (objToWrapper (new_world h))(r \<mapsto> wr)\<rparr>)"
    using a by (intro createProxy_fresh) (simp_all add: new_world_def)
  then show "createProxy host s (JObj r) [] 0 (new_world h)
        = (JObj wr, (new_world h')\<lparr>objToWrapper := [r \<mapsto> wr]\<rparr>)"
    by (simp add: new_world_def)
next
  assume a: "depthLimit s = Some 0 \<and> Reflect_get host target key receiver (heap w) = (Inr v, h'')"
  have deep: "createProxy host s v (path @ [segment_of key]) (Suc 0) w1 = (v, w1)" for w1
    using a by (intro createProxy_too_deep) (simp add: exceeds_def)
  show "createGetHandler host s path 0 target key receiver w
        = (Inr v,
           emitEvent host s
             ((createEventBase host GET (path @ [segment_of key]) target (Some key) w)
                \<lparr>ev_result := Some v,
                 ev_isPromise := Some (\<not> isBuiltinMethod key \<and> isPromise host h'' v)\<rparr>)
             (w\<lparr>heap := h''\<rparr>))"
    using a deep by (simp add: createGetHandler_def executeOperation_def Let_def)
qed


theorem createProxy_passthrough_witness:
  "createProxy demo_host (demo_session (Some 0) None None quiet_observer) (JNum 5) [] 0 (new_world demo_heap0)
     = (JNum 5, new_world demo_heap0) \<and>
   createProxy demo_host (demo_session (Some 0) None None quiet_observer) (JObj 2) [SStr ''address''] 1
       (new_world demo_heap0)
     = (JObj 2, new_world demo_heap0) \<and>
   createProxy demo_host (demo_session (Some 0) None None quiet_observer) (JObj 20) [] 0 (new_world demo_heap0)
     = (JObj 20, new_world demo_heap0) \<and>
   createProxy demo_host (demo_session (Some 0) None None quiet_observer) (JObj 2) [] 0
       ((new_world demo_heap0)\<lparr>processingObjects := {2}\<rparr>)
     = (JObj 2, (new_world demo_heap0)\<lparr>processingObjects := {2}\<rparr>) \<and>
   createProxy demo_host (demo_session (Some 0) None None quiet_observer) (JObj 1) [] 0 (new_world demo_heap0)
     = (JObj 100, (new_world (demo_heap0\<lparr>next_ref := 101\<rparr>))\<lparr>objToWrapper := [1 \<mapsto> 100]\<rparr>) \<and>
   fst (createGetHandler demo_host (demo_session (Some 0) None None quiet_observer) [] 0 1
          (KStr ''address'') (JObj 100) (new_world demo_heap0)) = Inr (JObj 2) \<and>
   map (\<lambda>(e, h). (ev_type e, ev_accessor e, ev_result e))
     (delivered (snd (createGetHandler demo_host (demo_session (Some 0) None None quiet_observer) [] 0 1
          (KStr ''address'') (JObj 100) (new_world demo_heap0))))
     = [(GET, ''address'', Some (JObj 2))]"
proof (intro conjI)
  let ?s = "demo_session (Some 0) None None quiet_observer"
  let ?w = "new_world demo_heap0"
  show "createProxy demo_host ?s (JNum 5) [] 0 ?w = (JNum 5, ?w)"
    using createProxy_passthrough [where host=demo_host and s="?s" and obj="JNum 5" and w="?w"
        and path="[]" and depth=0, THEN conjunct1]
    by simp
  show "createProxy demo_host ?s (JObj 2) [SStr ''address''] 1 ?w = (JObj 2, ?w)"
    using createProxy_passthrough [where host=demo_host and s="?s" and obj="JObj 2" and w="?w"
        and path="[SStr ''address'']" and depth=1 and l=0, THEN conjunct2, THEN conjunct1]
    by (simp add: demo_session_def)
  show "createProxy demo_host ?s (JObj 20) [] 0 ?w = (JObj 20, ?w)"
    using createProxy_passthrough [where host=demo_host and s="?s" and obj="JObj 20" and w="?w"
        and path="[]" and depth=0, THEN conjunct2, THEN conjunct2, THEN conjunct1]
    by (simp add: isPromise_def demo_eval)
  show "createProxy demo_host ?s (JObj 2) [] 0 (?w\<lparr>processingObjects := {2}\<rparr>)
     = (JObj 2, ?w\<lparr>processingObjects := {2}\<rparr>)"
    using createProxy_passthrough [where host=demo_host and s="?s" and r=2
        and w="?w\<lparr>processingObjects := {2}\<rparr>"
        and path="[]" and depth=0, THEN conjunct2, THEN conjunct2, THEN conjunct2, THEN conjunct1]
    by (simp add: new_world_def)
  show "createProxy demo_host ?s (JObj 1) [] 0 ?w
     = (JObj 100, (new_world (demo_heap0\<lparr>next_ref := 101\<rparr>))\<lparr>objToWrapper := [1 \<mapsto> 100]\<rparr>)"
    using createProxy_passthrough [where host=demo_host and s="?s" and r=1 and h=demo_heap0
        and wr=100 and h'="demo_heap0\<lparr>next_ref := 101\<rparr>",
        THEN conjunct2, THEN conjunct2, THEN conjunct2, THEN conjunct2, THEN conjunct1]
    by (simp add: demo_eval)
  have g: "createGetHandler demo_host ?s [] 0 1 (KStr ''address'') (JObj 100) ?w
        = (Inr (JObj 2),
           emitEvent demo_host ?s
             ((createEventBase demo_host GET ([] @ [segment_of (KStr ''address'')]) 1 (Some (KStr ''address'')) ?w)
                \<lparr>ev_result := Some (JObj 2),
                 ev_isPromise := Some (\<not> isBuiltinMethod (KStr ''address'') \<and> isPromise demo_host demo_heap0 (JObj 2))\<rparr>)
             (?w\<lparr>heap := demo_heap0\<rparr>))"
    using createProxy_passthrough [where host=demo_host and s="?s" and w="?w" and path="[]"
        and target=1 and key="KStr ''address''" and receiver="JObj 100" and v="JObj 2"
        and h''=demo_heap0,
        THEN conjunct2, THEN conjunct2, THEN conjunct2, THEN conjunct2, THEN conjunct2]
    by (simp add: demo_eval)
  show "fst (createGetHandler demo_host ?s [] 0 1 (KStr ''address'') (JObj 100) ?w) = Inr (JObj 2)"
    using g by simp
  show "map (\<lambda>(e, h). (ev_type e, ev_accessor e, ev_result e))
     (delivered (snd (createGetHandler demo_host ?s [] 0 1 (KStr ''address'') (JObj 100) ?w)))
     = [(GET, ''address'', Some (JObj 2))]"
    using g by (simp add: emitEvent_def createEventBase_def demo_eval filter_eval path_eval)
qed

section \<open>One wrapper for one value\<close>

lemma executeOperation_keeps_entries:
  "objToWrapper (snd (executeOperation host s operation eb w)) = objToWrapper w"
  by (simp add: executeOperation_def split: prod.splits sum.splits)

lemma get_keeps_entries:
  assumes "objToWrapper w r' = Some y"
  shows "objToWrapper (snd (createGetHandler host s path depth target key receiver w)) r' = Some y"
proof -
  let ?eb = "createEventBase host GET (path @ [segment_of key]) target (Some key) w"
  show ?thesis
  proof (cases "isBuiltinMethod key")
    case True
    then show ?thesis using assms
      by (simp add: createGetHandler_def split: prod.splits sum.splits)
  next
    case False
    obtain res w1 where e: "executeOperation host s (Reflect_get host target key receiver) ?eb w = (res, w1)"
      by (cases "executeOperation host s (Reflect_get host target key receiver) ?eb w")
    have w1: "objToWrapper w1 r' = Some y"
      using executeOperation_keeps_entries [of host s "Reflect_get host target key receiver" ?eb w] e assms
      by simp
    show ?thesis
      using False e w1 createProxy_keeps_entries [OF w1]
      by (auto simp: createGetHandler_def split: prod.splits sum.splits) (metis snd_conv)
  qed
qed

lemma apply_keeps_entries:
  assumes "objToWrapper w r' = Some y"
  shows "objToWrapper (snd (createApplyHandler host s path depth target thisArg argsList w)) r' = Some y"
proof -
  let ?eb = "(createEventBase host APPLY path target None w)\<lparr>ev_args := Some argsList\<rparr>"
  obtain res w1 where e: "executeOperation host s (Reflect_apply host target thisArg argsList) ?eb w = (res, w1)"
    by (cases "executeOperation host s (Reflect_apply host target thisArg argsList) ?eb w")
  have w1: "objToWrapper w1 r' = Some y"
    using executeOperation_keeps_entries [of host s "Reflect_apply host target thisArg argsList" ?eb w] e assms
    by simp
  show ?thesis
    using e w1 createProxy_keeps_entries [OF w1]
    by (auto simp: createApplyHandler_def handlePromiseResult_def split: prod.splits sum.splits) (metis snd_conv)
qed

lemma construct_keeps_entries:
  assumes "objToWrapper w r' = Some y"
  shows "objToWrapper (snd (createConstructHandler host s path depth target argsList newTarget w)) r' = Some y"
proof -
  let ?eb = "(createEventBase host CONSTRUCT path target None w)\<lparr>ev_args := Some argsList\<rparr>"
  obtain res w1 where e: "executeOperation host s (Reflect_construct host target argsList newTarget) ?eb w = (res, w1)"
    by (cases "executeOperation host s (Reflect_construct host target argsList newTarget) ?eb w")
  have w1: "objToWrapper w1 r' = Some y"
    using executeOperation_keeps_entries [of host s "Reflect_construct host target argsList newTarget" ?eb w] e assms
    by simp
  show ?thesis
    using e w1 createProxy_keeps_entries [OF w1]
    by (auto simp: createConstructHandler_def split: prod.splits sum.splits) (metis snd_conv)
qed

lemma set_keeps_entries:
  "objToWrapper (snd (createSetHandler host s path target key v receiver w)) = objToWrapper w"
  by (simp add: createSetHandler_def Let_def split: prod.splits)

lemma delete_keeps_entries:
  "objToWrapper (snd (createDeleteHandler host s path target key w)) = objToWrapper w"
  by (simp add: createDeleteHandler_def Let_def split: prod.splits)

text \<open>
  Claim C8, as the code has it. The depth test and the promise test come before the
  registry: a value that has a wrapper is given that same wrapper again, and the world
  is left as it is, whenever it is wrapped again at a depth that does not exceed the depth
  limit and while it is not an instance of \<^verbatim>\<open>Promise\<close>, whatever the path. When
  \<^verbatim>\<open>createProxy\<close> returns something other than its argument, that is the wrapper now
  registered for the argument. No operation of the session removes or replaces a
  registered wrapper, so an original value has at most one.
\<close>

theorem createProxy_idempotent:
  "(createProxy host s obj path depth w = (x, w1) \<and> x \<noteq> obj \<and>
    (\<forall>l. depthLimit s = Some l \<longrightarrow> depth' \<le> l) \<and> \<not> isPromise host (heap w1) obj \<longrightarrow>
      createProxy host s obj path' depth' w1 = (x, w1)) \<and>
   (objToWrapper w r = Some wr \<and> (\<forall>l. depthLimit s = Some l \<longrightarrow> depth' \<le> l) \<and>
    \<not> instanceof_Promise host (heap w) r \<longrightarrow>
      createProxy host s (JObj r) path' depth' w = (JObj wr, w)) \<and>
   (createProxy host s obj path depth w = (x, w1) \<and> x \<noteq> obj \<longrightarrow>
      (\<exists>r wr. obj = JObj r \<and> x = JObj wr \<and> objToWrapper w1 r = Some wr)) \<and>
   (objToWrapper w r = Some wr \<longrightarrow>
      objToWrapper (snd (createProxy host s obj path depth w)) r = Some wr \<and>
      objToWrapper (snd (createGetHandler host s path depth target key receiver w)) r = Some wr \<and>
      objToWrapper (snd (createSetHandler host s path target key v receiver w)) r = Some wr \<and>
      objToWrapper (snd (createApplyHandler host s path depth target thisArg argsList w)) r = Some wr \<and>
      objToWrapper (snd (createConstructHandler host s path depth target argsList newTarget w)) r = Some wr \<and>
      objToWrapper (snd (createDeleteHandler host s path target key w)) r = Some wr)"
proof (intro conjI impI)
  assume a: "createProxy host s obj path depth w = (x, w1) \<and> x \<noteq> obj \<and>
    (\<forall>l. depthLimit s = Some l \<longrightarrow> depth' \<le> l) \<and> \<not> isPromise host (heap w1) obj"
  then have "\<not> exceeds depth' (depthLimit s)" by (auto simp: exceeds_def split: option.splits)
  then show "createProxy host s obj path' depth' w1 = (x, w1)"
    using a by (intro createProxy_twice [where w=w and path=path and depth=depth]) simp_all
next
  assume a: "objToWrapper w r = Some wr \<and> (\<forall>l. depthLimit s = Some l \<longrightarrow> depth' \<le> l) \<and>
    \<not> instanceof_Promise host (heap w) r"
  then have "\<not> exceeds depth' (depthLimit s)" by (auto simp: exceeds_def split: option.splits)
  then show "createProxy host s (JObj r) path' depth' w = (JObj wr, w)"
    using a by (intro createProxy_cached) simp_all
next
  assume "createProxy host s obj path depth w = (x, w1) \<and> x \<noteq> obj"
  then show "\<exists>r wr. obj = JObj r \<and> x = JObj wr \<and> objToWrapper w1 r = Some wr"
    using createProxy_result by blast
next
  assume a: "objToWrapper w r = Some wr"
  show "objToWrapper (snd (createProxy host s obj path depth w)) r = Some wr"
    by (rule createProxy_keeps_entries [OF a])
  show "objToWrapper (snd (createGetHandler host s path depth target key receiver w)) r = Some wr"
    by (rule get_keeps_entries [OF a])
  show "objToWrapper (snd (createSetHandler host s path target key v receiver w)) r = Some wr"
    using a by (simp add: set_keeps_entries)
  show "objToWrapper (snd (createApplyHandler host s path depth target thisArg argsList w)) r = Some wr"
    by (rule apply_keeps_entries [OF a])
  show "objToWrapper (snd (createConstructHandler host s path depth target argsList newTarget w)) r = Some wr"
    by (rule construct_keeps_entries [OF a])
  show "objToWrapper (snd (createDeleteHandler host s path target key w)) r = Some wr"
    using a by (simp add: delete_keeps_entries)
qed


theorem createProxy_idempotent_witness:
  "createProxy demo_host (demo_session (Some 3) None None quiet_observer) (JObj 2) [SStr ''address''] 1
      (new_world demo_heap0)
     = (JObj 100, (new_world (demo_heap0\<lparr>next_ref := 101\<rparr>))\<lparr>objToWrapper := [2 \<mapsto> 100]\<rparr>) \<and>
   createProxy demo_host (demo_session (Some 3) None None quiet_observer) (JObj 2)
      [SStr ''other'', SStr ''address''] 2
      ((new_world (demo_heap0\<lparr>next_ref := 101\<rparr>))\<lparr>objToWrapper := [2 \<mapsto> 100]\<rparr>)
     = (JObj 100, (new_world (demo_heap0\<lparr>next_ref := 101\<rparr>))\<lparr>objToWrapper := [2 \<mapsto> 100]\<rparr>) \<and>
   createProxy demo_host (demo_session (Some 3) None None quiet_observer) (JObj 2) [] 3
      ((new_world (demo_heap0\<lparr>next_ref := 101\<rparr>))\<lparr>objToWrapper := [2 \<mapsto> 100]\<rparr>)
     = (JObj 100, (new_world (demo_heap0\<lparr>next_ref := 101\<rparr>))\<lparr>objToWrapper := [2 \<mapsto> 100]\<rparr>) \<and>
   objToWrapper (snd (createGetHandler demo_host (demo_session (Some 3) None None quiet_observer)
      [] 0 1 (KStr ''name'') (JObj 99)
      ((new_world (demo_heap0\<lparr>next_ref := 101\<rparr>))\<lparr>objToWrapper := [2 \<mapsto> 100]\<rparr>))) 2 = Some 100"
proof -
  let ?s = "demo_session (Some 3) None None quiet_observer"
  let ?w1 = "(new_world (demo_heap0\<lparr>next_ref := 101\<rparr>))\<lparr>objToWrapper := [2 \<mapsto> 100]\<rparr>"
  have first: "createProxy demo_host ?s (JObj 2) [SStr ''address''] 1 (new_world demo_heap0)
      = (JObj 100, ?w1)"
    by (simp add: createProxy_def exceeds_def isPromise_def demo_eval)
  have limit: "\<forall>l. depthLimit ?s = Some l \<longrightarrow> 2 \<le> l" "\<forall>l. depthLimit ?s = Some l \<longrightarrow> 3 \<le> l"
    by (simp_all add: demo_session_def)
  have np: "\<not> isPromise demo_host (heap ?w1) (JObj 2)" "\<not> instanceof_Promise demo_host (heap ?w1) 2"
    by (simp_all add: isPromise_def demo_eval)
  have second: "createProxy demo_host ?s (JObj 2) [SStr ''other'', SStr ''address''] 2 ?w1 = (JObj 100, ?w1)"
    using createProxy_idempotent [where host=demo_host and s="?s" and obj="JObj 2"
        and path="[SStr ''address'']" and depth=1 and w="new_world demo_heap0" and x="JObj 100"
        and ?w1.0="?w1" and depth'=2 and path'="[SStr ''other'', SStr ''address'']", THEN conjunct1]
      first limit(1) np(1)
    by simp
  have e: "objToWrapper ?w1 2 = Some 100" by simp
  have third: "createProxy demo_host ?s (JObj 2) [] 3 ?w1 = (JObj 100, ?w1)"
    using createProxy_idempotent [where host=demo_host and s="?s" and w="?w1" and r=2 and wr=100
        and depth'=3 and path'="[]", THEN conjunct2, THEN conjunct1]
      e limit(2) np(2)
    by simp
  have fourth: "objToWrapper (snd (createGetHandler demo_host ?s [] 0 1 (KStr ''name'') (JObj 99) ?w1)) 2
      = Some 100"
    using createProxy_idempotent [where host=demo_host and s="?s" and w="?w1" and r=2 and wr=100
        and path="[]" and depth=0 and target=1 and key="KStr ''name''" and receiver="JObj 99",
        THEN conjunct2, THEN conjunct2, THEN conjunct2] e
    by simp
  show ?thesis using first second third fourth by simp
qed

text \<open>
  Claim C8 as stated fails in two ways. With a depth limit of 1, object 2 is wrapped at
  depth 1 as wrapper 100, and wrapping it again at depth 2 returns object 2 itself. And
  without a depth limit, when object 2 has been made an instance of \<^verbatim>\<open>Promise\<close> after
  its wrapper was registered, wrapping it again returns object 2 itself.
\<close>

theorem createProxy_second_wrap_counterexample:
  "fst (createProxy demo_host (demo_session (Some 1) None None quiet_observer) (JObj 2)
          [SStr ''address''] 1 (new_world demo_heap0)) = JObj 100 \<and>
   fst (createProxy demo_host (demo_session (Some 1) None None quiet_observer) (JObj 2)
          [SStr ''other'', SStr ''address''] 2
          (snd (createProxy demo_host (demo_session (Some 1) None None quiet_observer) (JObj 2)
                  [SStr ''address''] 1 (new_world demo_heap0)))) = JObj 2 \<and>
   fst (createProxy demo_host (demo_session None None None quiet_observer) (JObj 2)
          [SStr ''address''] 1 (new_world demo_heap0)) = JObj 100 \<and>
   objToWrapper
     (snd (createProxy demo_host (demo_session None None None quiet_observer) (JObj 2)
             [SStr ''address''] 1 (new_world demo_heap0))) 2 = Some 100 \<and>
   fst (createProxy demo_host (demo_session None None None quiet_observer) (JObj 2)
          [SStr ''address''] 1
          ((snd (createProxy demo_host (demo_session None None None quiet_observer) (JObj 2)
                   [SStr ''address''] 1 (new_world demo_heap0)))
             \<lparr>heap := demo_heap0\<lparr>next_ref := 101, promises := {2, 20}\<rparr>\<rparr>)) = JObj 2"
  by (simp add: createProxy_def exceeds_def isPromise_def demo_eval)

section \<open>Promises and other thenables\<close>

lemma isPromise_iff: "isPromise host h v = (\<exists>r. v = JObj r \<and> instanceof_Promise host h r)"
  by (cases v) (simp_all add: isPromise_def)

lemma executeOperation_eq:
  "operation (heap w) = (res, h') \<Longrightarrow>
   executeOperation host s operation eb w =
     (res,
      emitEvent host s
        (case res of
           Inr v \<Rightarrow> eb\<lparr>ev_result := Some v, ev_isPromise := Some (isPromise host h' v)\<rparr>
         | Inl e \<Rightarrow> eb\<lparr>ev_error := Some e\<rparr>)
        (w\<lparr>heap := h'\<rparr>))"
  by (cases res) (simp_all add: executeOperation_def)

lemma apply_not_promise:
  assumes "Reflect_apply host target thisArg argsList (heap w) = (Inr v, h')" "\<not> isPromise host h' v"
    "\<not> isPromise host
        (heap (emitEvent host s
                ((createEventBase host APPLY path target None w)
                   \<lparr>ev_args := Some argsList, ev_result := Some v, ev_isPromise := Some False\<rparr>)
                (w\<lparr>heap := h'\<rparr>))) v"
  shows "createApplyHandler host s path depth target thisArg argsList w =
     (case createProxy host s v (path @ [SStr ''[sync-result]'']) (depth + 1)
             (emitEvent host s
                ((createEventBase host APPLY path target None w)
                   \<lparr>ev_args := Some argsList, ev_result := Some v, ev_isPromise := Some False\<rparr>)
                (w\<lparr>heap := h'\<rparr>)) of
        (x, w2) \<Rightarrow> (Inr x, w2))"
  using assms by (simp add: createApplyHandler_def executeOperation_eq SYNC_RESULT_def Let_def)

lemma apply_not_promise_reactions:
  assumes "Reflect_apply host target thisArg argsList (heap w) = (Inr v, h')" "\<not> isPromise host h' v"
    "\<not> isPromise host
        (heap (emitEvent host s
                ((createEventBase host APPLY path target None w)
                   \<lparr>ev_args := Some argsList, ev_result := Some v, ev_isPromise := Some False\<rparr>)
                (w\<lparr>heap := h'\<rparr>))) v"
  shows "reactions (snd (createApplyHandler host s path depth target thisArg argsList w)) = reactions w"
proof -
  let ?w1 = "emitEvent host s
                ((createEventBase host APPLY path target None w)
                   \<lparr>ev_args := Some argsList, ev_result := Some v, ev_isPromise := Some False\<rparr>)
                (w\<lparr>heap := h'\<rparr>)"
  obtain x w2 where cp: "createProxy host s v (path @ [SStr ''[sync-result]'']) (depth + 1) ?w1 = (x, w2)"
    by (cases "createProxy host s v (path @ [SStr ''[sync-result]'']) (depth + 1) ?w1")
  have "reactions w2 = reactions ?w1"
    using createProxy_reactions [of host s v "path @ [SStr ''[sync-result]'']" "depth + 1" ?w1]
    by (simp only: cp snd_conv)
  then have "reactions w2 = reactions w" by simp
  then show ?thesis
    using cp by (simp add: apply_not_promise [OF assms])
qed

text \<open>
  Claim C10. \<^verbatim>\<open>isPromise\<close> holds of the objects that are \<^verbatim>\<open>instanceof Promise\<close> and of
  nothing else; the properties of the value, a \<^verbatim>\<open>then\<close> method among them, are never
  consulted. An object that is not an instance is wrapped like every other object. When
  an intercepted call returns such an object, which is still not an instance when the
  event has been emitted, the trap reports the call with the deferred flag false,
  returns what \<^verbatim>\<open>createProxy\<close> gives for it under the path extended by
  \<^verbatim>\<open>[sync-result]\<close> at depth + 1, and attaches no continuation.
\<close>

theorem thenable_is_not_deferred:
  "isPromise host h v = (\<exists>r. v = JObj r \<and> instanceof_Promise host h r) \<and>
   (\<not> instanceof_Promise host (heap w) r \<and> (\<forall>l. depthLimit s = Some l \<longrightarrow> depth \<le> l) \<and>
    objToWrapper w r = None \<and> r \<notin> processingObjects w \<and>
    new_Proxy host r (Handler path depth) (heap w) = (Some wr, h') \<longrightarrow>
      createProxy host s (JObj r) path depth w
        = (JObj wr, w\<lparr>heap := h', objToWrapper := (objToWrapper w)(r \<mapsto> wr)\<rparr>)) \<and>
   (Reflect_apply host target thisArg argsList (heap w) = (Inr (JObj r), h') \<and>
    \<not> instanceof_Promise host h' r \<and>
    \<not> instanceof_Promise host
        (heap (emitEvent host s
                 ((createEventBase host APPLY path target None w)
                    \<lparr>ev_args := Some argsList, ev_result := Some (JObj r), ev_isPromise := Some False\<rparr>)
                 (w\<lparr>heap := h'\<rparr>))) r \<longrightarrow>
      createApplyHandler host s path depth target thisArg argsList w =
        (case createProxy host s (JObj r) (path @ [SStr ''[sync-result]'']) (depth + 1)
                (emitEvent host s
                   ((createEventBase host APPLY path target None w)
                      \<lparr>ev_args := Some argsList, ev_result := Some (JObj r),
                       ev_isPromise := Some False\<rparr>)
                   (w\<lparr>heap := h'\<rparr>)) of
           (x, w2) \<Rightarrow> (Inr x, w2)) \<and>
      reactions (snd (createApplyHandler host s path depth target thisArg argsList w)) = reactions w)"
proof (intro conjI impI)
  show "isPromise host h v = (\<exists>r. v = JObj r \<and> instanceof_Promise host h r)"
    by (rule isPromise_iff)
next
  assume a: "\<not> instanceof_Promise host (heap w) r \<and> (\<forall>l. depthLimit s = Some l \<longrightarrow> depth \<le> l) \<and>
    objToWrapper w r = None \<and> r \<notin> processingObjects w \<and>
    new_Proxy host r (Handler path depth) (heap w) = (Some wr, h')"
  then have "\<not> exceeds depth (depthLimit s)" by (auto simp: exceeds_def split: option.splits)
  then show "createProxy host s (JObj r) path depth w
        = (JObj wr, w\<lparr>heap := h', objToWrapper := (objToWrapper w)(r \<mapsto> wr)\<rparr>)"
    using a by (intro createProxy_fresh) simp_all
next
  assume a: "Reflect_apply host target thisArg argsList (heap w) = (Inr (JObj r), h') \<and>
    \<not> instanceof_Promise host h' r \<and>
    \<not> instanceof_Promise host
        (heap (emitEvent host s
                 ((createEventBase host APPLY path target None w)
                    \<lparr>ev_args := Some argsList, ev_result := Some (JObj r), ev_isPromise := Some False\<rparr>)
                 (w\<lparr>heap := h'\<rparr>))) r"
  then have ap: "Reflect_apply host target thisArg argsList (heap w) = (Inr (JObj r), h')"
    and np: "\<not> isPromise host h' (JObj r)"
    and np2: "\<not> isPromise host
        (heap (emitEvent host s
                 ((createEventBase host APPLY path target None w)
                    \<lparr>ev_args := Some argsList, ev_result := Some (JObj r), ev_isPromise := Some False\<rparr>)
                 (w\<lparr>heap := h'\<rparr>))) (JObj r)"
    by (simp_all add: isPromise_def)
  show "createApplyHandler host s path depth target thisArg argsList w =
        (case createProxy host s (JObj r) (path @ [SStr ''[sync-result]'']) (depth + 1)
                (emitEvent host s
                   ((createEventBase host APPLY path target None w)
                      \<lparr>ev_args := Some argsList, ev_result := Some (JObj r),
                       ev_isPromise := Some False\<rparr>)
                   (w\<lparr>heap := h'\<rparr>)) of
           (x, w2) \<Rightarrow> (Inr x, w2))"
    by (rule apply_not_promise [OF ap np np2])
  show "reactions (snd (createApplyHandler host s path depth target thisArg argsList w)) = reactions w"
    by (rule apply_not_promise_reactions [OF ap np np2])
qed

theorem thenable_is_not_deferred_witness:
  "props demo_heap0 (21, KStr ''then'') = Some (JObj 12) \<and>
   \<not> isPromise demo_host demo_heap0 (JObj 21) \<and>
   createProxy demo_host (demo_session None None None quiet_observer) (JObj 21) [SStr ''t''] 0
       (new_world demo_heap0)
     = (JObj 100, (new_world demo_heap0)\<lparr>heap := demo_heap0\<lparr>next_ref := 101\<rparr>,
                                          objToWrapper := [21 \<mapsto> 100]\<rparr>) \<and>
   fst (createApplyHandler demo_host (demo_session None None None quiet_observer) [SStr ''g''] 0 11
          JUndefined [] (new_world demo_heap0)) = Inr (JObj 100) \<and>
   reactions (snd (createApplyHandler demo_host (demo_session None None None quiet_observer) [SStr ''g''] 0 11
          JUndefined [] (new_world demo_heap0))) = [] \<and>
   map (\<lambda>(e, h). (ev_type e, ev_accessor e, ev_result e, ev_isPromise e))
     (delivered (snd (createApplyHandler demo_host (demo_session None None None quiet_observer)
          [SStr ''g''] 0 11 JUndefined [] (new_world demo_heap0))))
     = [(APPLY, ''g'', Some (JObj 21), Some False)]"
proof -
  let ?s = "demo_session None None None quiet_observer"
  let ?w = "new_world demo_heap0"
  let ?ev = "(createEventBase demo_host APPLY [SStr ''g''] 11 None ?w)
                      \<lparr>ev_args := Some [], ev_result := Some (JObj 21),
                       ev_isPromise := Some False\<rparr>"
  note t = thenable_is_not_deferred [where host=demo_host and s="?s" and w="?w" and r=21
      and path="[SStr ''t'']" and depth=0 and wr=100 and h'="demo_heap0\<lparr>next_ref := 101\<rparr>"
      and h=demo_heap0 and v="JObj 21"]
  note u = thenable_is_not_deferred [where host=demo_host and s="?s" and w="?w" and r=21
      and path="[SStr ''g'']" and depth=0 and target=11 and thisArg=JUndefined and argsList="[]"
      and h'=demo_heap0, THEN conjunct2, THEN conjunct2]
  have 1: "props demo_heap0 (21, KStr ''then'') = Some (JObj 12)" by (simp add: demo_heap0_def)
  have 2: "\<not> isPromise demo_host demo_heap0 (JObj 21)"
    using t [THEN conjunct1] by (simp add: demo_host_def demo_heap0_def)
  have 3: "createProxy demo_host ?s (JObj 21) [SStr ''t''] 0 ?w
     = (JObj 100, ?w\<lparr>heap := demo_heap0\<lparr>next_ref := 101\<rparr>, objToWrapper := [21 \<mapsto> 100]\<rparr>)"
    using t [THEN conjunct2, THEN conjunct1] by (simp add: demo_eval)
  have hyp: "Reflect_apply demo_host 11 JUndefined [] (heap ?w) = (Inr (JObj 21), demo_heap0) \<and>
    \<not> instanceof_Promise demo_host demo_heap0 21 \<and>
    \<not> instanceof_Promise demo_host (heap (emitEvent demo_host ?s ?ev (?w\<lparr>heap := demo_heap0\<rparr>))) 21"
    by (simp add: demo_eval emitEvent_def createEventBase_def filter_eval)
  from u hyp have 4: "createApplyHandler demo_host ?s [SStr ''g''] 0 11 JUndefined [] ?w =
        (case createProxy demo_host ?s (JObj 21) ([SStr ''g''] @ [SStr ''[sync-result]'']) (0 + 1)
                (emitEvent demo_host ?s ?ev (?w\<lparr>heap := demo_heap0\<rparr>)) of
           (x, w2) \<Rightarrow> (Inr x, w2))"
    and 5: "reactions (snd (createApplyHandler demo_host ?s [SStr ''g''] 0 11 JUndefined [] ?w)) = reactions ?w"
    by blast+
  have 6: "fst (createApplyHandler demo_host ?s [SStr ''g''] 0 11 JUndefined [] ?w) = Inr (JObj 100)"
    unfolding 4 by (simp add: model_eval demo_eval path_eval filter_eval)
  have 7: "map (\<lambda>(e, h). (ev_type e, ev_accessor e, ev_result e, ev_isPromise e))
     (delivered (snd (createApplyHandler demo_host ?s [SStr ''g''] 0 11 JUndefined [] ?w)))
     = [(APPLY, ''g'', Some (JObj 21), Some False)]"
    unfolding 4 by (simp add: model_eval demo_eval path_eval filter_eval)
  show ?thesis using 1 2 3 5 6 7 by (simp add: new_world_def)
qed

section \<open>Switching the detector off\<close>

lemma enable_is_false_iff: "enable_is_false opts = (opts ''enable'' = Some (OptVal (JBool False)))"
  by (auto simp: enable_is_false_def split: option.splits opt_value.splits jsval.splits)

lemma createDetector_disabled:
  "opts ''enable'' = Some (OptVal (JBool False)) \<Longrightarrow>
   createDetector host target (Callback f) opts h = Inr (target, new_world h)"
  by (simp add: createDetector_def enable_is_false_iff)

lemma createDetector_enabled:
  "opts ''enable'' \<noteq> Some (OptVal (JBool False)) \<Longrightarrow>
   createDetector host target (Callback f) opts h
     = Inr (createProxy host (session_of f opts) target [] 0 (new_world h))"
  by (simp add: createDetector_def enable_is_false_iff createProxy_primitive new_world_def)

lemma createDetector_wraps:
  assumes "opts ''enable'' \<noteq> Some (OptVal (JBool False))" "\<not> instanceof_Promise host h r"
    "new_Proxy host r (Handler [] 0) h = (Some wr, h')"
  shows "createDetector host (JObj r) (Callback f) opts h
     = Inr (JObj wr, (new_world h')\<lparr>objToWrapper := [r \<mapsto> wr]\<rparr>)"
proof -
  have "createProxy host (session_of f opts) (JObj r) [] 0 (new_world h)
      = (JObj wr, (new_world h)\<lparr>heap := h', objToWrapper := (objToWrapper (new_world h))(r \<mapsto> wr)\<rparr>)"
    using assms(2,3) by (intro createProxy_fresh) (simp_all add: new_world_def)
  then show ?thesis
    using assms(1) by (simp add: createDetector_enabled new_world_def)
qed

text \<open>
  Claim C1, as the code has it: the option that the source reads is \<^verbatim>\<open>enable\<close>. With a
  function as callback, an options object whose \<^verbatim>\<open>enable\<close> field is the boolean false
  makes \<^verbatim>\<open>createDetector\<close> return its target in a session in which nothing has
  happened: no proxy, no registry entry, no event. With every other options object, one
  without the field or with \<^verbatim>\<open>enable: true\<close> among them, the result is that of
  \<^verbatim>\<open>createProxy\<close> on the target with the empty path at depth 0; for an object that is
  not a promise and that \<^verbatim>\<open>new Proxy\<close> accepts, this is the new wrapper, registered for
  the target.
\<close>

theorem createDetector_enable:
  "(opts ''enable'' = Some (OptVal (JBool False)) \<longrightarrow>
      createDetector host target (Callback f) opts h = Inr (target, new_world h)) \<and>
   (opts ''enable'' \<noteq> Some (OptVal (JBool False)) \<longrightarrow>
      createDetector host target (Callback f) opts h
        = Inr (createProxy host (session_of f opts) target [] 0 (new_world h))) \<and>
   (opts ''enable'' \<noteq> Some (OptVal (JBool False)) \<and> \<not> instanceof_Promise host h r \<and>
    new_Proxy host r (Handler [] 0) h = (Some wr, h') \<longrightarrow>
      createDetector host (JObj r) (Callback f) opts h
        = Inr (JObj wr, (new_world h')\<lparr>objToWrapper := [r \<mapsto> wr]\<rparr>))"
proof (intro conjI impI)
  assume "opts ''enable'' = Some (OptVal (JBool False))"
  then show "createDetector host target (Callback f) opts h = Inr (target, new_world h)"
    by (rule createDetector_disabled)
next
  assume "opts ''enable'' \<noteq> Some (OptVal (JBool False))"
  then show "createDetector host target (Callback f) opts h
        = Inr (createProxy host (session_of f opts) target [] 0 (new_world h))"
    by (rule createDetector_enabled)
next
  assume "opts ''enable'' \<noteq> Some (OptVal (JBool False)) \<and> \<not> instanceof_Promise host h r \<and>
    new_Proxy host r (Handler [] 0) h = (Some wr, h')"
  then show "createDetector host (JObj r) (Callback f) opts h
        = Inr (JObj wr, (new_world h')\<lparr>objToWrapper := [r \<mapsto> wr]\<rparr>)"
    by (intro createDetector_wraps) simp_all
qed

theorem createDetector_enable_witness:
  "createDetector demo_host (JObj 1) (Callback quiet_observer) [''enable'' \<mapsto> OptVal (JBool False)] demo_heap0
     = Inr (JObj 1, new_world demo_heap0) \<and>
   createDetector demo_host (JObj 1) (Callback quiet_observer) Map.empty demo_heap0
     = Inr (JObj 100, (new_world (demo_heap0\<lparr>next_ref := 101\<rparr>))\<lparr>objToWrapper := [1 \<mapsto> 100]\<rparr>) \<and>
   createDetector demo_host (JObj 1) (Callback quiet_observer) [''enable'' \<mapsto> OptVal (JBool True)] demo_heap0
     = Inr (JObj 100, (new_world (demo_heap0\<lparr>next_ref := 101\<rparr>))\<lparr>objToWrapper := [1 \<mapsto> 100]\<rparr>) \<and>
   createDetector demo_host (JNum 7) (Callback quiet_observer) Map.empty demo_heap0
     = Inr (JNum 7, new_world demo_heap0)"
proof (intro conjI)
  show "createDetector demo_host (JObj 1) (Callback quiet_observer) [''enable'' \<mapsto> OptVal (JBool False)] demo_heap0
     = Inr (JObj 1, new_world demo_heap0)"
    using createDetector_enable [where opts="[''enable'' \<mapsto> OptVal (JBool False)]" and host=demo_host
        and target="JObj 1" and f=quiet_observer and h=demo_heap0, THEN conjunct1]
    by simp
  show "createDetector demo_host (JObj 1) (Callback quiet_observer) Map.empty demo_heap0
     = Inr (JObj 100, (new_world (demo_heap0\<lparr>next_ref := 101\<rparr>))\<lparr>objToWrapper := [1 \<mapsto> 100]\<rparr>)"
    using createDetector_enable [where opts="Map.empty" and host=demo_host
        and r=1 and f=quiet_observer and h=demo_heap0 and wr=100
        and h'="demo_heap0\<lparr>next_ref := 101\<rparr>", THEN conjunct2, THEN conjunct2]
    by (simp add: demo_eval)
  show "createDetector demo_host (JObj 1) (Callback quiet_observer) [''enable'' \<mapsto> OptVal (JBool True)] demo_heap0
     = Inr (JObj 100, (new_world (demo_heap0\<lparr>next_ref := 101\<rparr>))\<lparr>objToWrapper := [1 \<mapsto> 100]\<rparr>)"
    using createDetector_enable [where opts="[''enable'' \<mapsto> OptVal (JBool True)]" and host=demo_host
        and r=1 and f=quiet_observer and h=demo_heap0 and wr=100
        and h'="demo_heap0\<lparr>next_ref := 101\<rparr>", THEN conjunct2, THEN conjunct2]
    by (simp add: demo_eval)
  show "createDetector demo_host (JNum 7) (Callback quiet_observer) Map.empty demo_heap0
     = Inr (JNum 7, new_world demo_heap0)"
    using createDetector_enable [where opts="Map.empty" and host=demo_host
        and target="JNum 7" and f=quiet_observer and h=demo_heap0, THEN conjunct2, THEN conjunct1]
    by (simp add: createProxy_def)
qed

text \<open>
  Claim C1 as stated fails: an options object with the field \<^verbatim>\<open>enabled: false\<close> does
  not switch the instrumentation off. The root object 1 is wrapped as 100 and a read
  through the wrapper's handler is reported.
\<close>

theorem createDetector_enabled_field_counterexample:
  "createDetector demo_host (JObj 1) (Callback quiet_observer) [''enabled'' \<mapsto> OptVal (JBool False)] demo_heap0
     = Inr (JObj 100, (new_world (demo_heap0\<lparr>next_ref := 101\<rparr>))\<lparr>objToWrapper := [1 \<mapsto> 100]\<rparr>) \<and>
   JObj 100 \<noteq> JObj 1 \<and>
   map (\<lambda>(e, h). (ev_type e, ev_accessor e))
     (delivered (snd (createGetHandler demo_host
        (session_of quiet_observer [''enabled'' \<mapsto> OptVal (JBool False)]) [] 0 1 (KStr ''name'') (JObj 100)
        ((new_world (demo_heap0\<lparr>next_ref := 101\<rparr>))\<lparr>objToWrapper := [1 \<mapsto> 100]\<rparr>))))
     = [(GET, ''name'')]"
  by (simp add: createDetector_def enable_is_false_def session_of_def depthLimit_of_def
      patterns_of_def model_eval demo_eval path_eval filter_eval)

section \<open>Failures of the observed operation\<close>

lemma get_failure:
  assumes "\<not> isBuiltinMethod key" "Reflect_get host target key receiver (heap w) = (Inl e, h')"
  shows "createGetHandler host s path depth target key receiver w
       = (Inl e,
          emitEvent host s
            ((createEventBase host GET (path @ [segment_of key]) target (Some key) w)\<lparr>ev_error := Some e\<rparr>)
            (w\<lparr>heap := h'\<rparr>))"
  using assms by (simp add: createGetHandler_def executeOperation_eq Let_def)

lemma get_builtin_failure:
  assumes "isBuiltinMethod key" "Reflect_get host target key receiver (heap w) = (Inl e, h')"
  shows "createGetHandler host s path depth target key receiver w = (Inl e, w\<lparr>heap := h'\<rparr>)"
  using assms by (simp add: createGetHandler_def Let_def)

lemma apply_failure:
  assumes "Reflect_apply host target thisArg argsList (heap w) = (Inl e, h')"
  shows "createApplyHandler host s path depth target thisArg argsList w
       = (Inl e,
          emitEvent host s
            ((createEventBase host APPLY path target None w)\<lparr>ev_args := Some argsList, ev_error := Some e\<rparr>)
            (w\<lparr>heap := h'\<rparr>))"
  using assms by (simp add: createApplyHandler_def executeOperation_eq Let_def)

lemma construct_failure:
  assumes "Reflect_construct host target argsList newTarget (heap w) = (Inl e, h')"
  shows "createConstructHandler host s path depth target argsList newTarget w
       = (Inl e,
          emitEvent host s
            ((createEventBase host CONSTRUCT path target None w)\<lparr>ev_args := Some argsList, ev_error := Some e\<rparr>)
            (w\<lparr>heap := h'\<rparr>))"
  using assms by (simp add: createConstructHandler_def executeOperation_eq Let_def)

lemma emitEvent_at:
  assumes "shouldWatch host (include_patterns s) (exclude_patterns s) (ev_accessor ev) h' = (watched, h1)"
    "onEvent s ev h1 = (thrown, h2)"
  shows "emitEvent host s ev (w\<lparr>heap := h'\<rparr>) =
     w\<lparr>heap := (if watched then h2 else h1),
       emitted := emitted w @ [ev],
       delivered := delivered w @ (if watched then [(ev, h1)] else []),
       warnings := warnings w @ (if watched then (case thrown of None \<Rightarrow> [] | Some x \<Rightarrow> [x]) else [])\<rparr>"
  using assms emitEvent_eq [of host s ev "w\<lparr>heap := h'\<rparr>" watched h1 thrown h2] by simp

lemma createEventBase_fields [simp]:
  "ev_type (createEventBase host ty path target prop w) = ty"
  "ev_path (createEventBase host ty path target prop w) = path"
  "ev_accessor (createEventBase host ty path target prop w) = pathToAccessor path"
  "ev_result (createEventBase host ty path target prop w) = None"
  "ev_error (createEventBase host ty path target prop w) = None"
  "ev_value (createEventBase host ty path target prop w) = None"
  "ev_args (createEventBase host ty path target prop w) = None"
  "ev_isPromise (createEventBase host ty path target prop w) = None"
  by (simp_all add: createEventBase_def)

text \<open>
  Claim C6, as the code has it. When the underlying \<^verbatim>\<open>Reflect.apply\<close> or
  \<^verbatim>\<open>Reflect.construct\<close> throws \<open>e\<close>, or \<^verbatim>\<open>Reflect.get\<close> does for a key that is not a
  built-in one, the trap throws \<open>e\<close> and emits exactly one event, of the trap's type,
  whose error field is \<open>e\<close> and which has no result; the observer is called with it,
  once, if the filter accepts the accessor, and not at all otherwise. Here \<open>watched\<close> is
  the answer of the filter and \<open>thrown\<close> what the observer does. For a built-in key (one
  of the six symbols, or a string that starts with \<^verbatim>\<open>@@\<close>) the read is outside
  \<^verbatim>\<open>executeOperation\<close>: \<open>e\<close> is thrown and no event is emitted.
\<close>

theorem operation_failure_reported:
  "(let ev = (createEventBase host GET (path @ [segment_of key]) target (Some key) w)\<lparr>ev_error := Some e\<rparr>
    in \<not> isBuiltinMethod key \<and> Reflect_get host target key receiver (heap w) = (Inl e, h') \<and>
       shouldWatch host (include_patterns s) (exclude_patterns s)
         (pathToAccessor (path @ [segment_of key])) h' = (watched, h1) \<and>
       onEvent s ev h1 = (thrown, h2) \<longrightarrow>
         createGetHandler host s path depth target key receiver w
            = (Inl e,
               w\<lparr>heap := (if watched then h2 else h1),
                 emitted := emitted w @ [ev],
                 delivered := delivered w @ (if watched then [(ev, h1)] else []),
                 warnings := warnings w @
                   (if watched then (case thrown of None \<Rightarrow> [] | Some x \<Rightarrow> [x]) else [])\<rparr>) \<and>
         ev_type ev = GET \<and> ev_error ev = Some e \<and> ev_result ev = None) \<and>
   (isBuiltinMethod key \<and> Reflect_get host target key receiver (heap w) = (Inl e, h') \<longrightarrow>
      createGetHandler host s path depth target key receiver w = (Inl e, w\<lparr>heap := h'\<rparr>)) \<and>
   (let ev = (createEventBase host APPLY path target None w)\<lparr>ev_args := Some argsList, ev_error := Some e\<rparr>
    in Reflect_apply host target thisArg argsList (heap w) = (Inl e, h') \<and>
       shouldWatch host (include_patterns s) (exclude_patterns s) (pathToAccessor path) h' = (watched, h1) \<and>
       onEvent s ev h1 = (thrown, h2) \<longrightarrow>
         createApplyHandler host s path depth target thisArg argsList w
            = (Inl e,
               w\<lparr>heap := (if watched then h2 else h1),
                 emitted := emitted w @ [ev],
                 delivered := delivered w @ (if watched then [(ev, h1)] else []),
                 warnings := warnings w @
                   (if watched then (case thrown of None \<Rightarrow> [] | Some x \<Rightarrow> [x]) else [])\<rparr>) \<and>
         ev_type ev = APPLY \<and> ev_error ev = Some e \<and> ev_result ev = None) \<and>
   (let ev = (createEventBase host CONSTRUCT path target None w)\<lparr>ev_args := Some argsList, ev_error := Some e\<rparr>
    in Reflect_construct host target argsList newTarget (heap w) = (Inl e, h') \<and>
       shouldWatch host (include_patterns s) (exclude_patterns s) (pathToAccessor path) h' = (watched, h1) \<and>
       onEvent s ev h1 = (thrown, h2) \<longrightarrow>
         createConstructHandler host s path depth target argsList newTarget w
            = (Inl e,
               w\<lparr>heap := (if watched then h2 else h1),
                 emitted := emitted w @ [ev],
                 delivered := delivered w @ (if watched then [(ev, h1)] else []),
                 warnings := warnings w @
                   (if watched then (case thrown of None \<Rightarrow> [] | Some x \<Rightarrow> [x]) else [])\<rparr>) \<and>
         ev_type ev = CONSTRUCT \<and> ev_error ev = Some e \<and> ev_result ev = None)"
proof (intro conjI)
  show "let ev = (createEventBase host GET (path @ [segment_of key]) target (Some key) w)\<lparr>ev_error := Some e\<rparr>
    in \<not> isBuiltinMethod key \<and> Reflect_get host target key receiver (heap w) = (Inl e, h') \<and>
       shouldWatch host (include_patterns s) (exclude_patterns s)
         (pathToAccessor (path @ [segment_of key])) h' = (watched, h1) \<and>
       onEvent s ev h1 = (thrown, h2) \<longrightarrow>
         createGetHandler host s path depth target key receiver w
            = (Inl e,
               w\<lparr>heap := (if watched then h2 else h1),
                 emitted := emitted w @ [ev],
                 delivered := delivered w @ (if watched then [(ev, h1)] else []),
                 warnings := warnings w @
                   (if watched then (case thrown of None \<Rightarrow> [] | Some x \<Rightarrow> [x]) else [])\<rparr>) \<and>
         ev_type ev = GET \<and> ev_error ev = Some e \<and> ev_result ev = None"
    unfolding Let_def
  proof (intro impI, elim conjE)
    let ?ev = "(createEventBase host GET (path @ [segment_of key]) target (Some key) w)\<lparr>ev_error := Some e\<rparr>"
    assume a: "\<not> isBuiltinMethod key" "Reflect_get host target key receiver (heap w) = (Inl e, h')"
      "shouldWatch host (include_patterns s) (exclude_patterns s)
         (pathToAccessor (path @ [segment_of key])) h' = (watched, h1)"
      "onEvent s ?ev h1 = (thrown, h2)"
    have "emitEvent host s ?ev (w\<lparr>heap := h'\<rparr>) =
        w\<lparr>heap := (if watched then h2 else h1), emitted := emitted w @ [?ev],
          delivered := delivered w @ (if watched then [(?ev, h1)] else []),
          warnings := warnings w @ (if watched then (case thrown of None \<Rightarrow> [] | Some x \<Rightarrow> [x]) else [])\<rparr>"
      using a(3,4) by (intro emitEvent_at) simp_all
    then show "createGetHandler host s path depth target key receiver w
            = (Inl e,
               w\<lparr>heap := (if watched then h2 else h1),
                 emitted := emitted w @ [?ev],
                 delivered := delivered w @ (if watched then [(?ev, h1)] else []),
                 warnings := warnings w @
                   (if watched then (case thrown of None \<Rightarrow> [] | Some x \<Rightarrow> [x]) else [])\<rparr>) \<and>
         ev_type ?ev = GET \<and> ev_error ?ev = Some e \<and> ev_result ?ev = None"
      by (simp add: get_failure [OF a(1,2)])
  qed
next
  show "isBuiltinMethod key \<and> Reflect_get host target key receiver (heap w) = (Inl e, h') \<longrightarrow>
      createGetHandler host s path depth target key receiver w = (Inl e, w\<lparr>heap := h'\<rparr>)"
    by (simp add: get_builtin_failure)
next
  show "let ev = (createEventBase host APPLY path target None w)\<lparr>ev_args := Some argsList, ev_error := Some e\<rparr>
    in Reflect_apply host target thisArg argsList (heap w) = (Inl e, h') \<and>
       shouldWatch host (include_patterns s) (exclude_patterns s) (pathToAccessor path) h' = (watched, h1) \<and>
       onEvent s ev h1 = (thrown, h2) \<longrightarrow>
         createApplyHandler host s path depth target thisArg argsList w
            = (Inl e,
               w\<lparr>heap := (if watched then h2 else h1),
                 emitted := emitted w @ [ev],
                 delivered := delivered w @ (if watched then [(ev, h1)] else []),
                 warnings := warnings w @
                   (if watched then (case thrown of None \<Rightarrow> [] | Some x \<Rightarrow> [x]) else [])\<rparr>) \<and>
         ev_type ev = APPLY \<and> ev_error ev = Some e \<and> ev_result ev = None"
    unfolding Let_def
  proof (intro impI, elim conjE)
    let ?ev = "(createEventBase host APPLY path target None w)\<lparr>ev_args := Some argsList, ev_error := Some e\<rparr>"
    assume a: "Reflect_apply host target thisArg argsList (heap w) = (Inl e, h')"
      "shouldWatch host (include_patterns s) (exclude_patterns s) (pathToAccessor path) h' = (watched, h1)"
      "onEvent s ?ev h1 = (thrown, h2)"
    have "emitEvent host s ?ev (w\<lparr>heap := h'\<rparr>) =
        w\<lparr>heap := (if watched then h2 else h1), emitted := emitted w @ [?ev],
          delivered := delivered w @ (if watched then [(?ev, h1)] else []),
          warnings := warnings w @ (if watched then (case thrown of None \<Rightarrow> [] | Some x \<Rightarrow> [x]) else [])\<rparr>"
      using a(2,3) by (intro emitEvent_at) simp_all
    then show "createApplyHandler host s path depth target thisArg argsList w
            = (Inl e,
               w\<lparr>heap := (if watched then h2 else h1),
                 emitted := emitted w @ [?ev],
                 delivered := delivered w @ (if watched then [(?ev, h1)] else []),
                 warnings := warnings w @
                   (if watched then (case thrown of None \<Rightarrow> [] | Some x \<Rightarrow> [x]) else [])\<rparr>) \<and>
         ev_type ?ev = APPLY \<and> ev_error ?ev = Some e \<and> ev_result ?ev = None"
      by (simp add: apply_failure [OF a(1)])
  qed
next
  show "let ev = (createEventBase host CONSTRUCT path target None w)\<lparr>ev_args := Some argsList, ev_error := Some e\<rparr>
    in Reflect_construct host target argsList newTarget (heap w) = (Inl e, h') \<and>
       shouldWatch host (include_patterns s) (exclude_patterns s) (pathToAccessor path) h' = (watched, h1) \<and>
       onEvent s ev h1 = (thrown, h2) \<longrightarrow>
         createConstructHandler host s path depth target argsList newTarget w
            = (Inl e,
               w\<lparr>heap := (if watched then h2 else h1),
                 emitted := emitted w @ [ev],
                 delivered := delivered w @ (if watched then [(ev, h1)] else []),
                 warnings := warnings w @
                   (if watched then (case thrown of None \<Rightarrow> [] | Some x \<Rightarrow> [x]) else [])\<rparr>) \<and>
         ev_type ev = CONSTRUCT \<and> ev_error ev = Some e \<and> ev_result ev = None"
    unfolding Let_def
  proof (intro impI, elim conjE)
    let ?ev = "(createEventBase host CONSTRUCT path target None w)\<lparr>ev_args := Some argsList, ev_error := Some e\<rparr>"
    assume a: "Reflect_construct host target argsList newTarget (heap w) = (Inl e, h')"
      "shouldWatch host (include_patterns s) (exclude_patterns s) (pathToAccessor path) h' = (watched, h1)"
      "onEvent s ?ev h1 = (thrown, h2)"
    have "emitEvent host s ?ev (w\<lparr>heap := h'\<rparr>) =
        w\<lparr>heap := (if watched then h2 else h1), emitted := emitted w @ [?ev],
          delivered := delivered w @ (if watched then [(?ev, h1)] else []),
          warnings := warnings w @ (if watched then (case thrown of None \<Rightarrow> [] | Some x \<Rightarrow> [x]) else [])\<rparr>"
      using a(2,3) by (intro emitEvent_at) simp_all
    then show "createConstructHandler host s path depth target argsList newTarget w
            = (Inl e,
               w\<lparr>heap := (if watched then h2 else h1),
                 emitted := emitted w @ [?ev],
                 delivered := delivered w @ (if watched then [(?ev, h1)] else []),
                 warnings := warnings w @
                   (if watched then (case thrown of None \<Rightarrow> [] | Some x \<Rightarrow> [x]) else [])\<rparr>) \<and>
         ev_type ?ev = CONSTRUCT \<and> ev_error ?ev = Some e \<and> ev_result ?ev = None"
      by (simp add: construct_failure [OF a(1)])
  qed
qed


theorem operation_failure_reported_witness:
  "map (\<lambda>(e, h). (ev_type e, ev_accessor e, ev_error e, ev_result e))
     (delivered (snd (createGetHandler demo_host (demo_session None None None quiet_observer) [] 0 1
        (KStr ''boom'') (JObj 99) (new_world demo_heap0))))
     = [(GET, ''boom'', Some (JStr ''boom''), None)] \<and>
   fst (createGetHandler demo_host (demo_session None None None quiet_observer) [] 0 1
        (KStr ''boom'') (JObj 99) (new_world demo_heap0)) = Inl (JStr ''boom'') \<and>
   createGetHandler demo_host (demo_session None None None quiet_observer) [] 0 1
        (KStr ''@@boom'') (JObj 99) (new_world demo_heap0) = (Inl (JStr ''boom''), new_world demo_heap0) \<and>
   map (\<lambda>(e, h). (ev_type e, ev_accessor e, ev_error e, ev_result e))
     (delivered (snd (createApplyHandler demo_host (demo_session None None None quiet_observer)
        [SStr ''fail''] 0 12 JUndefined [] (new_world demo_heap0))))
     = [(APPLY, ''fail'', Some (JStr ''boom''), None)] \<and>
   fst (createApplyHandler demo_host (demo_session None None None quiet_observer)
        [SStr ''fail''] 0 12 JUndefined [] (new_world demo_heap0)) = Inl (JStr ''boom'') \<and>
   map (\<lambda>(e, h). (ev_type e, ev_accessor e, ev_error e, ev_result e))
     (delivered (snd (createConstructHandler demo_host
        (demo_session None None (Some [PString ''Other'']) quiet_observer)
        [SStr ''Klass''] 0 12 [] (JObj 12) (new_world demo_heap0))))
     = [(CONSTRUCT, ''Klass'', Some (JStr ''boom''), None)] \<and>
   delivered (snd (createConstructHandler demo_host
        (demo_session None None (Some [PString ''Klass'']) quiet_observer)
        [SStr ''Klass''] 0 12 [] (JObj 12) (new_world demo_heap0))) = [] \<and>
   map ev_type (emitted (snd (createConstructHandler demo_host
        (demo_session None None (Some [PString ''Klass'']) quiet_observer)
        [SStr ''Klass''] 0 12 [] (JObj 12) (new_world demo_heap0)))) = [CONSTRUCT]"
proof -
  let ?s = "demo_session None None None quiet_observer"
  let ?w = "new_world demo_heap0"
  note g = operation_failure_reported [where host=demo_host and s="?s" and w="?w" and key="KStr ''boom''"
      and target=1 and receiver="JObj 99" and e="JStr ''boom''" and h'=demo_heap0 and path="[]" and depth=0
      and watched=True and ?h1.0=demo_heap0 and thrown=None and ?h2.0=demo_heap0, THEN conjunct1]
  note b = operation_failure_reported [where host=demo_host and s="?s" and w="?w" and key="KStr ''@@boom''"
      and target=1 and receiver="JObj 99" and e="JStr ''boom''" and h'=demo_heap0 and path="[]" and depth=0,
      THEN conjunct2, THEN conjunct1]
  note a = operation_failure_reported [where host=demo_host and s="?s" and w="?w"
      and target=12 and thisArg=JUndefined and argsList="[]" and e="JStr ''boom''" and h'=demo_heap0
      and path="[SStr ''fail'']" and depth=0
      and watched=True and ?h1.0=demo_heap0 and thrown=None and ?h2.0=demo_heap0,
      THEN conjunct2, THEN conjunct2, THEN conjunct1]
  note c1 = operation_failure_reported [where host=demo_host
      and s="demo_session None None (Some [PString ''Other'']) quiet_observer" and w="?w"
      and target=12 and newTarget="JObj 12" and argsList="[]" and e="JStr ''boom''" and h'=demo_heap0
      and path="[SStr ''Klass'']" and depth=0
      and watched=True and ?h1.0=demo_heap0 and thrown=None and ?h2.0=demo_heap0,
      THEN conjunct2, THEN conjunct2, THEN conjunct2]
  note c2 = operation_failure_reported [where host=demo_host
      and s="demo_session None None (Some [PString ''Klass'']) quiet_observer" and w="?w"
      and target=12 and newTarget="JObj 12" and argsList="[]" and e="JStr ''boom''" and h'=demo_heap0
      and path="[SStr ''Klass'']" and depth=0
      and watched=False and ?h1.0=demo_heap0 and thrown=None and ?h2.0=demo_heap0,
      THEN conjunct2, THEN conjunct2, THEN conjunct2]
  have 1: "map (\<lambda>(e, h). (ev_type e, ev_accessor e, ev_error e, ev_result e))
     (delivered (snd (createGetHandler demo_host ?s [] 0 1 (KStr ''boom'') (JObj 99) ?w)))
     = [(GET, ''boom'', Some (JStr ''boom''), None)]"
    and 2: "fst (createGetHandler demo_host ?s [] 0 1 (KStr ''boom'') (JObj 99) ?w) = Inl (JStr ''boom'')"
    using g by (simp_all add: Let_def demo_eval filter_eval path_eval)
  have 3: "createGetHandler demo_host ?s [] 0 1 (KStr ''@@boom'') (JObj 99) ?w = (Inl (JStr ''boom''), ?w)"
    using b by (simp add: demo_eval startsWith_def)
  have 4: "map (\<lambda>(e, h). (ev_type e, ev_accessor e, ev_error e, ev_result e))
     (delivered (snd (createApplyHandler demo_host ?s [SStr ''fail''] 0 12 JUndefined [] ?w)))
     = [(APPLY, ''fail'', Some (JStr ''boom''), None)]"
    and 5: "fst (createApplyHandler demo_host ?s [SStr ''fail''] 0 12 JUndefined [] ?w) = Inl (JStr ''boom'')"
    using a by (simp_all add: Let_def demo_eval filter_eval path_eval)
  have 6: "map (\<lambda>(e, h). (ev_type e, ev_accessor e, ev_error e, ev_result e))
     (delivered (snd (createConstructHandler demo_host
        (demo_session None None (Some [PString ''Other'']) quiet_observer)
        [SStr ''Klass''] 0 12 [] (JObj 12) ?w)))
     = [(CONSTRUCT, ''Klass'', Some (JStr ''boom''), None)]"
    using c1 by (simp add: Let_def demo_eval filter_eval path_eval)
  have 7: "delivered (snd (createConstructHandler demo_host
        (demo_session None None (Some [PString ''Klass'']) quiet_observer)
        [SStr ''Klass''] 0 12 [] (JObj 12) ?w)) = []"
    and 8: "map ev_type (emitted (snd (createConstructHandler demo_host
        (demo_session None None (Some [PString ''Klass'']) quiet_observer)
        [SStr ''Klass''] 0 12 [] (JObj 12) ?w))) = [CONSTRUCT]"
    using c2 by (simp_all add: Let_def demo_eval filter_eval path_eval)
  show ?thesis using 1 2 3 4 5 6 7 8 by simp
qed

text \<open>
  Claim C6 as stated fails for a read of a built-in key: the getter of \<^verbatim>\<open>@@boom\<close>
  throws, the trap throws the same value, and no event has been emitted.
\<close>

theorem builtin_get_failure_counterexample:
  "isBuiltinMethod (KStr ''@@boom'') \<and>
   Reflect_get demo_host 1 (KStr ''@@boom'') (JObj 99) demo_heap0 = (Inl (JStr ''boom''), demo_heap0) \<and>
   fst (createGetHandler demo_host (demo_session None None None quiet_observer) [] 0 1
        (KStr ''@@boom'') (JObj 99) (new_world demo_heap0)) = Inl (JStr ''boom'') \<and>
   emitted (snd (createGetHandler demo_host (demo_session None None None quiet_observer) [] 0 1
        (KStr ''@@boom'') (JObj 99) (new_world demo_heap0))) = [] \<and>
   delivered (snd (createGetHandler demo_host (demo_session None None None quiet_observer) [] 0 1
        (KStr ''@@boom'') (JObj 99) (new_world demo_heap0))) = []"
  by (simp add: model_eval demo_eval startsWith_def)

section \<open>Writes\<close>

lemma set_trap_eq:
  assumes "Reflect_set host target key v receiver
             (heap (emitEvent host s
               ((createEventBase host SET (path @ [segment_of key]) target (Some key) w)\<lparr>ev_value := Some v\<rparr>)
               w)) = (res, h')"
  shows "createSetHandler host s path target key v receiver w
       = (res,
          (emitEvent host s
             ((createEventBase host SET (path @ [segment_of key]) target (Some key) w)\<lparr>ev_value := Some v\<rparr>)
             w)\<lparr>heap := h'\<rparr>)"
  using assms by (simp add: createSetHandler_def Let_def)

text \<open>
  Claim C4, as the code has it. The \<^verbatim>\<open>set\<close> trap first emits and then writes. It emits
  exactly one \<^verbatim>\<open>set\<close> event, of path parent + key, with the value to be written and no
  error; the observer is called with it, once, if the filter accepts the accessor and
  not at all otherwise, on the heap before the write. Then \<^verbatim>\<open>Reflect.set\<close> runs on the
  heap that the filter and the observer have left, and what it returns or throws is what
  the trap returns or throws; the heap after the trap is the heap after the write. Here
  \<open>watched\<close> is the answer of the filter and \<open>thrown\<close> what the observer does.
\<close>

theorem set_trap_reports_then_writes:
  "(let ev = (createEventBase host SET (path @ [segment_of key]) target (Some key) w)\<lparr>ev_value := Some v\<rparr>
    in shouldWatch host (include_patterns s) (exclude_patterns s)
         (pathToAccessor (path @ [segment_of key])) (heap w) = (watched, h1) \<and>
       onEvent s ev h1 = (thrown, h2) \<and>
       Reflect_set host target key v receiver (if watched then h2 else h1) = (res, h') \<longrightarrow>
         createSetHandler host s path target key v receiver w
           = (res,
              w\<lparr>heap := h',
                emitted := emitted w @ [ev],
                delivered := delivered w @ (if watched then [(ev, h1)] else []),
                warnings := warnings w @
                  (if watched then (case thrown of None \<Rightarrow> [] | Some x \<Rightarrow> [x]) else [])\<rparr>) \<and>
         ev_type ev = SET \<and> ev_path ev = path @ [segment_of key] \<and> ev_value ev = Some v \<and>
         ev_error ev = None)"
  unfolding Let_def
proof (intro impI, elim conjE)
  let ?ev = "(createEventBase host SET (path @ [segment_of key]) target (Some key) w)\<lparr>ev_value := Some v\<rparr>"
  assume a: "shouldWatch host (include_patterns s) (exclude_patterns s)
         (pathToAccessor (path @ [segment_of key])) (heap w) = (watched, h1)"
    "onEvent s ?ev h1 = (thrown, h2)"
    "Reflect_set host target key v receiver (if watched then h2 else h1) = (res, h')"
  have em: "emitEvent host s ?ev w =
      w\<lparr>heap := (if watched then h2 else h1), emitted := emitted w @ [?ev],
        delivered := delivered w @ (if watched then [(?ev, h1)] else []),
        warnings := warnings w @ (if watched then (case thrown of None \<Rightarrow> [] | Some x \<Rightarrow> [x]) else [])\<rparr>"
    using a(1,2) by (intro emitEvent_eq) simp_all
  have "Reflect_set host target key v receiver (heap (emitEvent host s ?ev w)) = (res, h')"
    using a(3) by (simp add: em)
  from set_trap_eq [OF this]
  show "createSetHandler host s path target key v receiver w
           = (res,
              w\<lparr>heap := h',
                emitted := emitted w @ [?ev],
                delivered := delivered w @ (if watched then [(?ev, h1)] else []),
                warnings := warnings w @
                  (if watched then (case thrown of None \<Rightarrow> [] | Some x \<Rightarrow> [x]) else [])\<rparr>) \<and>
         ev_type ?ev = SET \<and> ev_path ?ev = path @ [segment_of key] \<and> ev_value ?ev = Some v \<and>
         ev_error ?ev = None"
    by (simp add: em)
qed

theorem set_trap_reports_then_writes_witness:
  "fst (createSetHandler demo_host (demo_session None None None quiet_observer) [SStr ''address''] 2
          (KStr ''city'') (JStr ''New York'') (JObj 101) (new_world demo_heap0)) = Inr True \<and>
   props (heap (snd (createSetHandler demo_host (demo_session None None None quiet_observer) [SStr ''address''] 2
          (KStr ''city'') (JStr ''New York'') (JObj 101) (new_world demo_heap0)))) (2, KStr ''city'')
     = Some (JStr ''New York'') \<and>
   map (\<lambda>(e, h). (ev_type e, ev_accessor e, ev_value e, ev_error e))
     (delivered (snd (createSetHandler demo_host (demo_session None None None quiet_observer) [SStr ''address''] 2
          (KStr ''city'') (JStr ''New York'') (JObj 101) (new_world demo_heap0))))
     = [(SET, ''address.city'', Some (JStr ''New York''), None)] \<and>
   fst (createSetHandler demo_host (demo_session None None None freezing_observer) [SStr ''address''] 2
          (KStr ''city'') (JStr ''New York'') (JObj 101) (new_world demo_heap0)) = Inr False \<and>
   props (heap (snd (createSetHandler demo_host (demo_session None None None freezing_observer) [SStr ''address''] 2
          (KStr ''city'') (JStr ''New York'') (JObj 101) (new_world demo_heap0)))) (2, KStr ''city'')
     = Some (JStr ''Wonderland'')"
proof -
  let ?w = "new_world demo_heap0"
  let ?h' = "demo_heap0\<lparr>props := (props demo_heap0)((2, KStr ''city'') \<mapsto> JStr ''New York'')\<rparr>"
  let ?hf = "demo_heap0\<lparr>frozen := {2}\<rparr>"
  note t = set_trap_reports_then_writes [where host=demo_host
      and s="demo_session None None None quiet_observer" and w="?w" and target=2
      and key="KStr ''city''" and v="JStr ''New York''" and receiver="JObj 101" and res="Inr True"
      and h'="?h'" and path="[SStr ''address'']"
      and watched=True and ?h1.0=demo_heap0 and thrown=None and ?h2.0=demo_heap0]
  note u = set_trap_reports_then_writes [where host=demo_host
      and s="demo_session None None None freezing_observer" and w="?w" and target=2
      and key="KStr ''city''" and v="JStr ''New York''" and receiver="JObj 101" and res="Inr False"
      and h'="?hf" and path="[SStr ''address'']"
      and watched=True and ?h1.0=demo_heap0 and thrown=None and ?h2.0="?hf"]
  have 1: "fst (createSetHandler demo_host (demo_session None None None quiet_observer) [SStr ''address''] 2
          (KStr ''city'') (JStr ''New York'') (JObj 101) ?w) = Inr True"
    and 2: "props (heap (snd (createSetHandler demo_host (demo_session None None None quiet_observer)
          [SStr ''address''] 2 (KStr ''city'') (JStr ''New York'') (JObj 101) ?w))) (2, KStr ''city'')
        = Some (JStr ''New York'')"
    and 3: "map (\<lambda>(e, h). (ev_type e, ev_accessor e, ev_value e, ev_error e))
        (delivered (snd (createSetHandler demo_host (demo_session None None None quiet_observer)
          [SStr ''address''] 2 (KStr ''city'') (JStr ''New York'') (JObj 101) ?w)))
        = [(SET, ''address.city'', Some (JStr ''New York''), None)]"
    using t by (simp_all add: Let_def demo_eval filter_eval path_eval)
  have 4: "fst (createSetHandler demo_host (demo_session None None None freezing_observer) [SStr ''address''] 2
          (KStr ''city'') (JStr ''New York'') (JObj 101) ?w) = Inr False"
    and 5: "props (heap (snd (createSetHandler demo_host (demo_session None None None freezing_observer)
          [SStr ''address''] 2 (KStr ''city'') (JStr ''New York'') (JObj 101) ?w))) (2, KStr ''city'')
        = Some (JStr ''Wonderland'')"
    using u by (simp_all add: Let_def demo_eval filter_eval path_eval createEventBase_def)
  show ?thesis using 1 2 3 4 5 by simp
qed

text \<open>
  Claim C4 as stated fails on the order: the observer is called before the write. When
  it is called for the write of \<^verbatim>\<open>'New York'\<close> to \<^verbatim>\<open>address.city\<close>, the property still
  holds \<^verbatim>\<open>'Wonderland'\<close>; after the trap it holds \<^verbatim>\<open>'New York'\<close>.
\<close>

theorem set_event_before_write_counterexample:
  "map (\<lambda>(e, h). (ev_type e, ev_accessor e, ev_value e, props h (2, KStr ''city'')))
     (delivered (snd (createSetHandler demo_host (demo_session None None None quiet_observer) [SStr ''address''] 2
          (KStr ''city'') (JStr ''New York'') (JObj 101) (new_world demo_heap0))))
     = [(SET, ''address.city'', Some (JStr ''New York''), Some (JStr ''Wonderland''))] \<and>
   props (heap (snd (createSetHandler demo_host (demo_session None None None quiet_observer) [SStr ''address''] 2
          (KStr ''city'') (JStr ''New York'') (JObj 101) (new_world demo_heap0)))) (2, KStr ''city'')
     = Some (JStr ''New York'')"
  by (simp add: model_eval demo_eval path_eval filter_eval)

section \<open>Calls that return a promise\<close>

lemma run_reaction_emit: "run_reaction host s out eb w = emitEvent host s (follow_up out eb) w"
  by (cases out) (simp_all add: onFulfilled_def onRejected_def)

lemma run_reactions_settled [simp]: "settled (run_reactions host s rs w) = settled w"
  by (induction rs arbitrary: w) (auto split: option.splits)

lemma run_reaction_reactions [simp]: "reactions (run_reaction host s out eb w) = reactions w"
  by (simp add: run_reaction_emit)

lemma run_reactions_reactions [simp]: "reactions (run_reactions host s rs w) = reactions w"
  by (induction rs arbitrary: w) (auto split: option.splits)

















lemma follow_up_fields [simp]:
  "ev_path (follow_up out eb) = ev_path eb"
  "ev_accessor (follow_up out eb) = ev_accessor eb"
  "ev_args (follow_up out eb) = ev_args eb"
  "ev_isPromise (follow_up out eb) = Some True"
  by (cases out; simp)+






end
